theory Spec2Isabelle
  imports Complex_Main "HOL-Library.AList" "HOL-Library.Multiset" "HOL-Library.List_Lexorder"
    "HOL-Library.Char_ord"
begin

section \<open>The file-backed queue store of storage_memory/queue.go\<close>

text \<open>
  The Go file implements the queue and message operations of \<open>LocalClient\<close> on a
  directory tree: one directory per queue under \<open>storageDir/queueDir\<close>, holding the
  descriptor file \<open>metadataFile\<close> and one file \<open><id>.json\<close> per message. The
  embedding keeps the tree as a value that every operation takes and returns.

  What the embedding fixes about the environment:
  \<^item> queue and message ids are plain file names (no path separators, not empty), so
    \<open>filepath.Join\<close> is the lookup of a name in a directory;
  \<^item> the root \<open>storageDir/queueDir\<close> exists and holds queue directories only (so
    \<open>os.ReadDir\<close> of it does not fail), and a queue directory holds no
    sub-directory;
  \<^item> a storage primitive fails only for a reason that the tree shows: a missing
    directory or file, or content that \<open>json.Unmarshal\<close> rejects. Failures of the
    operating system beyond that (permissions, a full disk, a torn write) are not
    part of the model, and \<open>json.Marshal\<close> of a record always succeeds;
  \<^item> the clock (\<open>time.Now()\<close>) and the id generator (\<open>uuid.NewString()\<close>) are
    inputs: each call of the source is one argument of the model;
  \<^item> the struct declarations of package \<open>models\<close> are not part of the sources at
    hand; the fields are the ones that queue.go reads and writes, and a record
    written with \<open>json.Marshal\<close> is read back unchanged by \<open>json.Unmarshal\<close>;
  \<^item> integer fields are unbounded integers. Where the source computes in \<open>int64\<close>
    from values that a caller passes in (the paging arithmetic of \<open>GetQueues\<close>, the
    duration of a timeout), the model wraps the result around as Go does.
\<close>

subsection \<open>Time\<close>

text \<open>
  A \<open>time.Time\<close> is an instant: nanoseconds since the Unix epoch. The zero value
  \<open>time.Time{}\<close> is January 1, year 1, 00:00:00 UTC. A \<open>time.Duration\<close> is an
  \<open>int64\<close> count of nanoseconds, so the product
  \<open>time.Duration(msg.Timeout) * time.Second\<close> wraps around.
\<close>

type_synonym time = int

definition zero_time :: time where
  "zero_time = - 62135596800 * 1000000000"

definition Unix :: "time \<Rightarrow> int" where
  "Unix t = t div 1000000000"

definition Before :: "time \<Rightarrow> time \<Rightarrow> bool" where
  "Before t u = (t < u)"

definition After :: "time \<Rightarrow> time \<Rightarrow> bool" where
  "After t u = (t > u)"

definition Equal :: "time \<Rightarrow> time \<Rightarrow> bool" where
  "Equal t u = (t = u)"

definition wrap64 :: "int \<Rightarrow> int" where
  "wrap64 x = (x + 2 ^ 63) mod 2 ^ 64 - 2 ^ 63"

definition Second :: int where
  "Second = 1000000000"

definition Duration_seconds :: "int \<Rightarrow> int" where
  "Duration_seconds timeout = wrap64 (wrap64 timeout * Second)"

definition Add :: "time \<Rightarrow> int \<Rightarrow> time" where
  "Add t d = t + d"

text \<open>
  \<open>Time.Format(time.RFC3339Nano)\<close>, the layout \<open>2006-01-02T15:04:05.999999999Z07:00\<close>,
  for an instant and the offset of its zone in seconds east of UTC (years 0 to
  9999): the date and the time of day in that zone, the fraction of the second
  without its trailing zeros (nothing at all when it is zero), then \<open>Z\<close> for the
  offset zero and \<open>+hh:mm\<close> or \<open>-hh:mm\<close> otherwise. The date comes from the count
  of days since the epoch in the proleptic Gregorian calendar.
\<close>

definition digit :: "int \<Rightarrow> char" where
  "digit d = ''0123456789'' ! nat d"

definition digits2 :: "int \<Rightarrow> string" where
  "digits2 n = [digit (n div 10 mod 10), digit (n mod 10)]"

definition digits4 :: "int \<Rightarrow> string" where
  "digits4 n = digits2 (n div 100) @ digits2 (n mod 100)"

definition civil_from_days :: "int \<Rightarrow> int \<times> int \<times> int" where
  "civil_from_days days =
     (let z = days + 719468;
          era = z div 146097;
          doe = z - era * 146097;
          yoe = (doe - doe div 1460 + doe div 36524 - doe div 146096) div 365;
          doy = doe - (365 * yoe + yoe div 4 - yoe div 100);
          mp = (5 * doy + 2) div 153;
          d = doy - (153 * mp + 2) div 5 + 1;
          m = (if mp < 10 then mp + 3 else mp - 9);
          y = yoe + era * 400 + (if m \<le> 2 then 1 else 0)
      in (y, m, d))"

fun formatNano :: "nat \<Rightarrow> int \<Rightarrow> string" where
  "formatNano 0 nsec = []"
| "formatNano (Suc k) nsec =
     (if nsec = 0 then []
      else digit (nsec div 10 ^ k) # formatNano k (nsec mod 10 ^ k))"

definition format_zone :: "int \<Rightarrow> string" where
  "format_zone offset =
     (let zone = sgn offset * (\<bar>offset\<bar> div 60)
      in if offset = 0 then ''Z''
         else (if zone < 0 then ''-'' else ''+'')
              @ digits2 (\<bar>zone\<bar> div 60) @ '':'' @ digits2 (\<bar>zone\<bar> mod 60))"

definition Format_RFC3339Nano :: "time \<Rightarrow> int \<Rightarrow> string" where
  "Format_RFC3339Nano t offset =
     (let secs = Unix t + offset;
          (y, m, d) = civil_from_days (secs div 86400);
          sod = secs mod 86400;
          nsec = t mod 1000000000
      in digits4 y @ ''-'' @ digits2 m @ ''-'' @ digits2 d @ ''T''
         @ digits2 (sod div 3600) @ '':'' @ digits2 (sod div 60 mod 60) @ '':''
         @ digits2 (sod mod 60)
         @ (if nsec = 0 then [] else ''.'' @ formatNano 9 nsec)
         @ format_zone offset)"

subsection \<open>Records of package models\<close>

record Queue =
  Id_q :: string
  Description :: string
  Name :: string
  RunId :: string
  ActorId :: string
  CreatedAt :: string

record Msg =
  ID :: string
  QueueID :: string
  Name_m :: string
  Payload :: string
  Timeout :: int
  Deadline :: int
  Retry :: int
  Retried :: int
  SuccessAt :: int
  FailedAt :: int
  Desc :: string

text \<open>\<open>MsgLocal\<close> embeds \<open>Msg\<close> and adds the two instants of the lease engine.\<close>

record MsgLocal = Msg +
  ReenterTime :: time
  UpdateTime :: time

record CreateMsgRequest =
  req_QueueId :: string
  req_Name :: string
  req_PayLoad :: string
  req_Deadline :: int
  req_Retry :: int
  req_Timeout :: int

record ListQueuesResponse =
  Items :: "Queue list"
  Total :: int
  Page :: int
  PageSize :: int
  TotalPage :: int

subsection \<open>The directory tree\<close>

text \<open>
  The content of a JSON file is the value that \<open>json.Unmarshal\<close> yields, or it is
  text that \<open>json.Unmarshal\<close> rejects. A queue directory holds the descriptor file
  (if it is there) and the message files by file name; the walk of \<open>GetMsg\<close>
  tells the two apart with \<open>d.Name() == metadataFile\<close>, the model by the field.
  The store lists the queue directories by directory name.
\<close>

datatype 'a json_file = Parsed 'a | Unparsable

record qdir =
  metadata :: "Queue json_file option"
  msgs :: "(string \<times> MsgLocal json_file) list"

type_synonym storage = "(string \<times> qdir) list"

definition msg_file :: "string \<Rightarrow> string" where
  "msg_file msgId = msgId @ ''.json''"

definition isDirExists :: "storage \<Rightarrow> string \<Rightarrow> bool" where
  \<comment> \<open>Modelled from the spec: the directory-existence predicate, a collaborator.\<close>
  "isDirExists st queueId = (map_of st queueId \<noteq> None)"

definition isFileExists :: "storage \<Rightarrow> string \<Rightarrow> string \<Rightarrow> bool" where
  \<comment> \<open>Modelled from the spec: the file-existence predicate, a collaborator.\<close>
  "isFileExists st queueId fileName =
     (case map_of st queueId of
        None \<Rightarrow> False
      | Some d \<Rightarrow> map_of (msgs d) fileName \<noteq> None)"

subsection \<open>Outcomes\<close>

text \<open>
  The errors are the ones queue.go returns: \<open>ErrResourceNotFound\<close> and the
  \<open>fmt.Errorf\<close>/\<open>errors.New\<close> values, named after their messages. A run-time
  panic (a slice expression out of range) is no returned error: it is an outcome
  of its own.
\<close>

datatype error =
    ErrResourceNotFound
  | ErrQueueExists string
  | ErrUpdateMetadata
  | ErrReadFile
  | ErrUnmarshal
  | ErrWriteFile
  | ErrDeadline
  | ErrWalk
  | ErrMsgTimeout

datatype 'a outcome = Return 'a | Error error | Panic

subsection \<open>sort.Slice\<close>

text \<open>
  \<open>sort.Slice\<close> sorts by the \<open>less\<close> function it is given; the order of elements
  that \<open>less\<close> does not separate is not fixed by Go. The model inserts each element
  before the first one that is not less than it.
\<close>

fun insert_Slice :: "('a \<Rightarrow> 'a \<Rightarrow> bool) \<Rightarrow> 'a \<Rightarrow> 'a list \<Rightarrow> 'a list" where
  "insert_Slice lt x [] = [x]"
| "insert_Slice lt x (y # ys) =
     (if lt y x then y # insert_Slice lt x ys else x # y # ys)"

definition sort_Slice :: "('a \<Rightarrow> 'a \<Rightarrow> bool) \<Rightarrow> 'a list \<Rightarrow> 'a list" where
  "sort_Slice lt xs = foldr (insert_Slice lt) xs []"

subsection \<open>Queue operations\<close>

definition updateMetadata :: "storage \<Rightarrow> Queue \<Rightarrow> unit outcome \<times> storage" where
  "updateMetadata st queue =
     (case map_of st (Id_q queue) of
        None \<Rightarrow> (Error ErrWriteFile, st)
      | Some d \<Rightarrow>
          (Return (), AList.update (Id_q queue) (d\<lparr>metadata := Some (Parsed queue)\<rparr>) st))"

fun isNameExists :: "storage \<Rightarrow> string \<Rightarrow> bool" where
  \<comment> \<open>Modelled from the spec: the scan of create, "any existing descriptor has the
      same name (case-sensitive exact match, scanned linearly over all queue
      directories)"; the helper is not in queue.go.\<close>
  "isNameExists [] name = False"
| "isNameExists ((dirName, d) # st) name =
     (case metadata d of
        Some (Parsed q) \<Rightarrow> Name q = name \<or> isNameExists st name
      | _ \<Rightarrow> isNameExists st name)"

definition MkdirAll :: "storage \<Rightarrow> string \<Rightarrow> storage" where
  "MkdirAll st dirName =
     (case map_of st dirName of
        None \<Rightarrow> st @ [(dirName, \<lparr>metadata = None, msgs = []\<rparr>)]
      | Some d \<Rightarrow> st)"

text \<open>
  \<open>CreateQueue\<close>: \<open>newId\<close> is the value of \<open>uuid.NewString()\<close> and \<open>createdAt\<close> the
  text of \<open>time.Now().Format(time.RFC3339Nano)\<close>, that is
  \<open>Format_RFC3339Nano now offset\<close> for the reading \<open>now\<close> of the clock in the local
  zone.
\<close>

definition CreateQueue ::
  "storage \<Rightarrow> string \<Rightarrow> string \<Rightarrow> string \<Rightarrow> string \<Rightarrow> string \<Rightarrow> string
     \<Rightarrow> string outcome \<times> storage" where
  "CreateQueue st name description runId actorId newId createdAt =
     (if isNameExists st name then (Error (ErrQueueExists name), st)
      else
        (let st1 = MkdirAll st newId;
             queue = \<lparr>Id_q = newId, Description = description, Name = name, RunId = runId,
                      ActorId = actorId, CreatedAt = createdAt\<rparr>
         in case updateMetadata st1 queue of
              (Return u, st2) \<Rightarrow> (Return newId, st2)
            | (other, st2) \<Rightarrow> (Error ErrUpdateMetadata, st2)))"

definition GetQueue :: "storage \<Rightarrow> string \<Rightarrow> Queue outcome \<times> storage" where
  "GetQueue st queueId =
     (case map_of st queueId of
        None \<Rightarrow> (Error ErrResourceNotFound, st)
      | Some d \<Rightarrow>
          (case metadata d of
             None \<Rightarrow> (Error ErrReadFile, st)
           | Some Unparsable \<Rightarrow> (Error ErrUnmarshal, st)
           | Some (Parsed queue) \<Rightarrow> (Return queue, st)))"

text \<open>
  The loop of \<open>GetQueues\<close> over \<open>os.ReadDir\<close>, which lists a directory sorted by
  file name: a directory whose descriptor is missing or does not parse is skipped.
\<close>

fun read_descriptors :: "(string \<times> qdir) list \<Rightarrow> Queue list" where
  "read_descriptors [] = []"
| "read_descriptors ((dirName, d) # entries) =
     (case metadata d of
        Some (Parsed meta) \<Rightarrow> meta # read_descriptors entries
      | _ \<Rightarrow> read_descriptors entries)"

definition ReadDir :: "(string \<times> 'a) list \<Rightarrow> (string \<times> 'a) list" where
  "ReadDir entries = sort_key fst entries"

definition totalPage :: "int \<Rightarrow> int \<Rightarrow> int" where
  \<comment> \<open>Modelled from the spec: "the computed total page count = ceil(total / pageSize)";
      the helper is not in queue.go.\<close>
  "totalPage total_n pageSize = \<lceil>real_of_int total_n / real_of_int pageSize\<rceil>"

definition less_CreatedAt :: "bool \<Rightarrow> Queue \<Rightarrow> Queue \<Rightarrow> bool" where
  "less_CreatedAt desc a b =
     (if desc then CreatedAt a > CreatedAt b else CreatedAt a < CreatedAt b)"

text \<open>
  \<open>Page\<close> and \<open>PageSize\<close> are \<open>int64\<close> (they are compared with
  \<open>int64(len(allNamespaces))\<close>), so \<open>start\<close> and \<open>end\<close> wrap around. The slice
  expression \<open>allNamespaces[start:end]\<close> panics unless
  \<open>0 \<le> start \<le> end \<le> cap\<close>; \<open>end \<le> total\<close> holds after the clamp.
\<close>

definition GetQueues :: "storage \<Rightarrow> int \<Rightarrow> int \<Rightarrow> bool \<Rightarrow> ListQueuesResponse outcome \<times> storage" where
  "GetQueues st page pageSize desc =
     (let allNamespaces = sort_Slice (less_CreatedAt desc) (read_descriptors (ReadDir st));
          total_n = int (length allNamespaces);
          start0 = wrap64 ((page - 1) * pageSize);
          start = (if start0 > total_n then total_n else start0);
          end0 = wrap64 (start + pageSize);
          end1 = (if end0 > total_n then total_n else end0)
      in if start < 0 \<or> end1 < start then (Panic, st)
         else (Return \<lparr>Items = take (nat (end1 - start)) (drop (nat start) allNamespaces),
                        Total = total_n, Page = page, PageSize = pageSize,
                        TotalPage = totalPage total_n pageSize\<rparr>, st))"

definition UpdateQueue :: "storage \<Rightarrow> string \<Rightarrow> string \<Rightarrow> string \<Rightarrow> unit outcome \<times> storage" where
  "UpdateQueue st queueId name description =
     (if \<not> isDirExists st queueId then (Return (), st)
      else
        (case map_of st queueId of
           None \<Rightarrow> (Error ErrReadFile, st)
         | Some d \<Rightarrow>
             (case metadata d of
                None \<Rightarrow> (Error ErrReadFile, st)
              | Some Unparsable \<Rightarrow> (Error ErrUnmarshal, st)
              | Some (Parsed queue) \<Rightarrow>
                  updateMetadata st (queue\<lparr>Name := name, Description := description\<rparr>))))"

definition DelQueue :: "storage \<Rightarrow> string \<Rightarrow> unit outcome \<times> storage" where
  "DelQueue st queueId = (Return (), AList.delete queueId st)"

subsection \<open>Message operations\<close>

text \<open>
  \<open>CreateMsg\<close> reads the clock twice: \<open>now1\<close> for the check of the deadline and
  \<open>now2\<close> for \<open>UpdateTime\<close>. The fields that the struct literal does not name
  keep Go's zero values.
\<close>

definition CreateMsg ::
  "storage \<Rightarrow> CreateMsgRequest \<Rightarrow> string \<Rightarrow> time \<Rightarrow> time \<Rightarrow> string outcome \<times> storage" where
  "CreateMsg st req newId now1 now2 =
     (if req_Deadline req < Unix now1 + 300 then (Error ErrDeadline, st)
      else if \<not> isDirExists st (req_QueueId req) then (Error ErrResourceNotFound, st)
      else
        (case map_of st (req_QueueId req) of
           None \<Rightarrow> (Error ErrResourceNotFound, st)
         | Some d \<Rightarrow>
             (let msg = \<lparr>ID = newId, QueueID = req_QueueId req, Name_m = req_Name req,
                         Payload = req_PayLoad req, Timeout = req_Timeout req,
                         Deadline = req_Deadline req, Retry = req_Retry req, Retried = 0,
                         SuccessAt = 0, FailedAt = 0, Desc = [],
                         ReenterTime = zero_time, UpdateTime = now2\<rparr>
              in (Return newId,
                  AList.update (req_QueueId req)
                    (d\<lparr>msgs := AList.update (msg_file newId) (Parsed msg) (msgs d)\<rparr>) st))))"

text \<open>The two tests of the walk in \<open>GetMsg\<close>, in the order of the source.\<close>

definition finished :: "time \<Rightarrow> MsgLocal \<Rightarrow> bool" where
  "finished now msg =
     (SuccessAt msg > 0 \<or> FailedAt msg > 0 \<or> Deadline msg < Unix now \<or>
      (Before (ReenterTime msg) now \<and> Retried msg \<ge> Retry msg))"

definition not_reenter :: "time \<Rightarrow> MsgLocal \<Rightarrow> bool" where
  "not_reenter now msg =
     (\<not> Equal (ReenterTime msg) zero_time \<and> After (ReenterTime msg) now)"

text \<open>
  The callback of \<open>filepath.WalkDir\<close>, run over the entries of the queue directory
  in the order of the listing. The listing is taken once; each file is read when
  it is visited, and the only file that a visit changes is the visited one. The
  result is the error that stops the walk (if any), the files left and the
  messages appended to \<open>msgs\<close>.
\<close>

fun walk ::
  "time \<Rightarrow> (string \<times> MsgLocal json_file) list \<Rightarrow> (string \<times> MsgLocal json_file) list \<Rightarrow> MsgLocal list
     \<Rightarrow> error option \<times> (string \<times> MsgLocal json_file) list \<times> MsgLocal list" where
  "walk now [] files acc = (None, files, acc)"
| "walk now ((name, Unparsable) # entries) files acc = (Some ErrUnmarshal, files, acc)"
| "walk now ((name, Parsed msg) # entries) files acc =
     (if finished now msg then walk now entries (AList.delete name files) acc
      else if not_reenter now msg then walk now entries files acc
      else walk now entries files (acc @ [msg]))"

definition lease_grant :: "time \<Rightarrow> MsgLocal \<Rightarrow> MsgLocal" where
  "lease_grant now msg =
     msg\<lparr>ReenterTime := Add now (Duration_seconds (Timeout msg)), Retried := Retried msg + 1\<rparr>"

definition response_Msg :: "MsgLocal \<Rightarrow> Msg" where
  "response_Msg msg =
     \<lparr>ID = ID msg, QueueID = QueueID msg, Name_m = Name_m msg, Payload = Payload msg,
      Timeout = Timeout msg, Deadline = Deadline msg, Retry = Retry msg,
      Retried = Retried msg, SuccessAt = SuccessAt msg, FailedAt = FailedAt msg,
      Desc = Desc msg\<rparr>"

text \<open>The second loop of \<open>GetMsg\<close>: grant the lease, write the file, append the view.\<close>

fun lease_all ::
  "time \<Rightarrow> MsgLocal list \<Rightarrow> (string \<times> MsgLocal json_file) list \<Rightarrow> Msg list
     \<Rightarrow> (string \<times> MsgLocal json_file) list \<times> Msg list" where
  "lease_all now [] files respMsg = (files, respMsg)"
| "lease_all now (msg # rest) files respMsg =
     (let msg' = lease_grant now msg
      in lease_all now rest (AList.update (msg_file (ID msg')) (Parsed msg') files)
           (respMsg @ [response_Msg msg']))"

definition less_UpdateTime :: "MsgLocal \<Rightarrow> MsgLocal \<Rightarrow> bool" where
  "less_UpdateTime a b = Before (UpdateTime a) (UpdateTime b)"

text \<open>
  \<open>GetMsg\<close>. A missing queue directory makes \<open>WalkDir\<close> hand the error of the root
  to the callback, which returns it. \<open>msgs[:req.Limit]\<close> panics on a negative limit
  (the test \<open>len(msgs) > int(req.Limit)\<close> holds for it); by then the walk has
  removed the files it found finished. After a walk without error the directory
  exists, so the writes of the lease loop succeed.
\<close>

definition GetMsg :: "storage \<Rightarrow> string \<Rightarrow> int \<Rightarrow> time \<Rightarrow> Msg list outcome \<times> storage" where
  "GetMsg st queueId limit now =
     (case map_of st queueId of
        None \<Rightarrow> (Error ErrWalk, st)
      | Some d \<Rightarrow>
          (case walk now (ReadDir (msgs d)) (msgs d) [] of
             (Some err, files, found) \<Rightarrow> (Error err, AList.update queueId (d\<lparr>msgs := files\<rparr>) st)
           | (None, files, found) \<Rightarrow>
               (let sorted_msgs = sort_Slice less_UpdateTime found
                in if int (length sorted_msgs) > limit \<and> limit < 0
                   then (Panic, AList.update queueId (d\<lparr>msgs := files\<rparr>) st)
                   else
                     (let selected = (if int (length sorted_msgs) > limit
                                      then take (nat limit) sorted_msgs else sorted_msgs);
                          (files', respMsg) = lease_all now selected files []
                      in (Return respMsg, AList.update queueId (d\<lparr>msgs := files'\<rparr>) st)))))"

definition AckMsg :: "storage \<Rightarrow> string \<Rightarrow> string \<Rightarrow> time \<Rightarrow> unit outcome \<times> storage" where
  "AckMsg st queueId msgId now =
     (if \<not> isFileExists st queueId (msg_file msgId) then (Error ErrResourceNotFound, st)
      else
        (case map_of st queueId of
           None \<Rightarrow> (Error ErrReadFile, st)
         | Some d \<Rightarrow>
             (case map_of (msgs d) (msg_file msgId) of
                None \<Rightarrow> (Error ErrReadFile, st)
              | Some Unparsable \<Rightarrow> (Error ErrUnmarshal, st)
              | Some (Parsed msg) \<Rightarrow>
                  if Equal (ReenterTime msg) zero_time then (Error ErrResourceNotFound, st)
                  else if Before (ReenterTime msg) now then (Error ErrMsgTimeout, st)
                  else (Return (),
                        AList.update queueId
                          (d\<lparr>msgs := AList.delete (msg_file msgId) (msgs d)\<rparr>) st))))"

section \<open>Notions for the statements\<close>

text \<open>
  What a walk over a listing does, read off the listing: the error that stops it,
  the names of the files it removes, and the messages it appends. All three stop
  at the first file that does not parse, as the walk does.
\<close>

fun walk_error :: "(string \<times> MsgLocal json_file) list \<Rightarrow> error option" where
  "walk_error [] = None"
| "walk_error ((name, Unparsable) # entries) = Some ErrUnmarshal"
| "walk_error ((name, Parsed msg) # entries) = walk_error entries"

fun purged :: "time \<Rightarrow> (string \<times> MsgLocal json_file) list \<Rightarrow> string list" where
  "purged now [] = []"
| "purged now ((name, Unparsable) # entries) = []"
| "purged now ((name, Parsed msg) # entries) =
     (if finished now msg then name # purged now entries else purged now entries)"

fun found :: "time \<Rightarrow> (string \<times> MsgLocal json_file) list \<Rightarrow> MsgLocal list" where
  "found now [] = []"
| "found now ((name, Unparsable) # entries) = []"
| "found now ((name, Parsed msg) # entries) =
     (if \<not> finished now msg \<and> \<not> not_reenter now msg then msg # found now entries
      else found now entries)"

definition lease_writes ::
  "time \<Rightarrow> MsgLocal list \<Rightarrow> (string \<times> MsgLocal json_file) list
     \<Rightarrow> (string \<times> MsgLocal json_file) list" where
  "lease_writes now selected files =
     foldl (\<lambda>fs msg. AList.update (msg_file (ID msg)) (Parsed (lease_grant now msg)) fs)
       files selected"

definition kept_files ::
  "time \<Rightarrow> (string \<times> MsgLocal json_file) list \<Rightarrow> (string \<times> MsgLocal json_file) list" where
  "kept_files now files = filter (\<lambda>p. fst p \<notin> set (purged now (ReadDir files))) files"

definition selected_msgs ::
  "time \<Rightarrow> int \<Rightarrow> (string \<times> MsgLocal json_file) list \<Rightarrow> MsgLocal list" where
  "selected_msgs now limit files =
     (let sorted_msgs = sort_Slice less_UpdateTime (found now (ReadDir files))
      in if int (length sorted_msgs) > limit then take (nat limit) sorted_msgs else sorted_msgs)"

text \<open>
  A queue directory as the operations leave it: no two files share a name, and a
  message file is named after the id of the message it holds (\<open>CreateMsg\<close> writes
  \<open><id>.json\<close>, and \<open>GetMsg\<close> rewrites a record under the name of its id).
\<close>

definition named_by_id :: "(string \<times> MsgLocal json_file) list \<Rightarrow> bool" where
  "named_by_id files =
     list_all (\<lambda>p. case snd p of Parsed msg \<Rightarrow> fst p = msg_file (ID msg) | Unparsable \<Rightarrow> True)
       files"

definition wf_files :: "(string \<times> MsgLocal json_file) list \<Rightarrow> bool" where
  "wf_files files = (distinct (map fst files) \<and> named_by_id files)"

definition wf_store :: "storage \<Rightarrow> bool" where
  "wf_store st = list_all (\<lambda>p. wf_files (msgs (snd p))) st"

text \<open>
  Sequences of calls: an operation with its arguments and the readings of the
  clock and of the id generator, the store it leaves, and the store after a
  sequence of them.
\<close>

datatype operation =
    OpCreateQueue string string string string string string
  | OpGetQueue string
  | OpGetQueues int int bool
  | OpUpdateQueue string string string
  | OpDelQueue string
  | OpCreateMsg CreateMsgRequest string time time
  | OpGetMsg string int time
  | OpAckMsg string string time

fun step :: "storage \<Rightarrow> operation \<Rightarrow> storage" where
  "step st (OpCreateQueue name description runId actorId newId createdAt) =
     snd (CreateQueue st name description runId actorId newId createdAt)"
| "step st (OpGetQueue queueId) = snd (GetQueue st queueId)"
| "step st (OpGetQueues page pageSize desc) = snd (GetQueues st page pageSize desc)"
| "step st (OpUpdateQueue queueId name description) =
     snd (UpdateQueue st queueId name description)"
| "step st (OpDelQueue queueId) = snd (DelQueue st queueId)"
| "step st (OpCreateMsg req newId now1 now2) = snd (CreateMsg st req newId now1 now2)"
| "step st (OpGetMsg queueId limit now) = snd (GetMsg st queueId limit now)"
| "step st (OpAckMsg queueId msgId now) = snd (AckMsg st queueId msgId now)"

definition run :: "storage \<Rightarrow> operation list \<Rightarrow> storage" where
  "run st ops = foldl step st ops"

text \<open>An enqueue for which the id generator yields the given id.\<close>

fun generates :: "string \<Rightarrow> operation \<Rightarrow> bool" where
  "generates msgId (OpCreateMsg req newId now1 now2) = (newId = msgId)"
| "generates msgId other = False"

text \<open>
  No file of the queue directory (if the directory exists) bears the name of the
  message id or holds a record with that id.
\<close>

definition absent :: "string \<Rightarrow> string \<Rightarrow> storage \<Rightarrow> bool" where
  "absent queueId msgId st =
     (case map_of st queueId of
        None \<Rightarrow> True
      | Some d \<Rightarrow>
          list_all (\<lambda>p. fst p \<noteq> msg_file msgId \<and>
                         (case snd p of Parsed msg \<Rightarrow> ID msg \<noteq> msgId | Unparsable \<Rightarrow> True))
            (msgs d))"

section \<open>Example stores\<close>

text \<open>
  Twenty-five queues, created one second apart and listed here in the order of
  creation. The directory names (the ids) are not in that order, so the listing
  of \<open>os.ReadDir\<close> is not either.
\<close>

definition stamps25 :: "(string \<times> string) list" where
  "stamps25 =
     [(''queue-00'', ''2024-05-01T10:00:00Z''), (''queue-07'', ''2024-05-01T10:00:01Z''),
      (''queue-14'', ''2024-05-01T10:00:02Z''), (''queue-21'', ''2024-05-01T10:00:03Z''),
      (''queue-03'', ''2024-05-01T10:00:04Z''), (''queue-10'', ''2024-05-01T10:00:05Z''),
      (''queue-17'', ''2024-05-01T10:00:06Z''), (''queue-24'', ''2024-05-01T10:00:07Z''),
      (''queue-06'', ''2024-05-01T10:00:08Z''), (''queue-13'', ''2024-05-01T10:00:09Z''),
      (''queue-20'', ''2024-05-01T10:00:10Z''), (''queue-02'', ''2024-05-01T10:00:11Z''),
      (''queue-09'', ''2024-05-01T10:00:12Z''), (''queue-16'', ''2024-05-01T10:00:13Z''),
      (''queue-23'', ''2024-05-01T10:00:14Z''), (''queue-05'', ''2024-05-01T10:00:15Z''),
      (''queue-12'', ''2024-05-01T10:00:16Z''), (''queue-19'', ''2024-05-01T10:00:17Z''),
      (''queue-01'', ''2024-05-01T10:00:18Z''), (''queue-08'', ''2024-05-01T10:00:19Z''),
      (''queue-15'', ''2024-05-01T10:00:20Z''), (''queue-22'', ''2024-05-01T10:00:21Z''),
      (''queue-04'', ''2024-05-01T10:00:22Z''), (''queue-11'', ''2024-05-01T10:00:23Z''),
      (''queue-18'', ''2024-05-01T10:00:24Z'')]"

definition descr25 :: "string \<times> string \<Rightarrow> Queue" where
  "descr25 p =
     \<lparr>Id_q = fst p, Description = [], Name = fst p, RunId = [], ActorId = [],
      CreatedAt = snd p\<rparr>"

definition queues25 :: storage where
  "queues25 =
     map (\<lambda>p. (fst p, \<lparr>metadata = Some (Parsed (descr25 p)), msgs = []\<rparr>)) stamps25"

text \<open>
  One queue with one message, as \<open>CreateQueue\<close> and \<open>CreateMsg\<close> leave them at
  second 1700000000 (2023-11-14T22:13:20Z): the deadline is 400 seconds later,
  the timeout 60 seconds, and three deliveries are allowed. Instants are in
  nanoseconds. \<open>leased1\<close> is the record after a poll at second 1700000100.
\<close>

definition orders :: Queue where
  "orders =
     \<lparr>Id_q = ''q-1'', Description = ''order events'', Name = ''orders'', RunId = ''run-1'',
      ActorId = ''actor-1'', CreatedAt = ''2023-11-14T22:13:20Z''\<rparr>"

definition msg1 :: MsgLocal where
  "msg1 =
     \<lparr>ID = ''m-1'', QueueID = ''q-1'', Name_m = ''job'', Payload = ''{}'', Timeout = 60,
      Deadline = 1700000400, Retry = 3, Retried = 0, SuccessAt = 0, FailedAt = 0, Desc = [],
      ReenterTime = zero_time, UpdateTime = 1700000000000000000\<rparr>"

definition dir1 :: qdir where
  "dir1 = \<lparr>metadata = Some (Parsed orders), msgs = [(''m-1.json'', Parsed msg1)]\<rparr>"

definition store1 :: storage where
  "store1 = [(''q-1'', dir1)]"

definition leased1 :: MsgLocal where
  "leased1 = msg1\<lparr>ReenterTime := 1700000160000000000, Retried := 1\<rparr>"

definition store1_leased :: storage where
  "store1_leased = [(''q-1'', dir1\<lparr>msgs := [(''m-1.json'', Parsed leased1)]\<rparr>)]"

text \<open>
  The scenario of the specification: a message with a timeout of one second and
  one delivery allowed, enqueued at second 1700000000 with the deadline an hour
  later. \<open>leased2\<close> is the record after a poll half a second after the enqueue.
\<close>

definition msg2 :: MsgLocal where
  "msg2 =
     \<lparr>ID = ''m-2'', QueueID = ''q-1'', Name_m = ''job'', Payload = ''{}'', Timeout = 1,
      Deadline = 1700003600, Retry = 1, Retried = 0, SuccessAt = 0, FailedAt = 0, Desc = [],
      ReenterTime = zero_time, UpdateTime = 1700000000000000000\<rparr>"

definition leased2 :: MsgLocal where
  "leased2 = msg2\<lparr>ReenterTime := 1700000001500000000, Retried := 1\<rparr>"

definition store_of :: "(string \<times> MsgLocal json_file) list \<Rightarrow> storage" where
  "store_of files = [(''q-1'', \<lparr>metadata = Some (Parsed orders), msgs = files\<rparr>)]"

text \<open>A request for a message that allows no delivery at all, and its record.\<close>

definition req0 :: CreateMsgRequest where
  "req0 =
     \<lparr>req_QueueId = ''q-1'', req_Name = ''job'', req_PayLoad = ''{}'',
      req_Deadline = 1700003600, req_Retry = 0, req_Timeout = 30\<rparr>"

definition msg0 :: MsgLocal where
  "msg0 =
     \<lparr>ID = ''m-0'', QueueID = ''q-1'', Name_m = ''job'', Payload = ''{}'', Timeout = 30,
      Deadline = 1700003600, Retry = 0, Retried = 0, SuccessAt = 0, FailedAt = 0, Desc = [],
      ReenterTime = zero_time, UpdateTime = 1700000000000000000\<rparr>"

text \<open>
  Two queues created half a second apart in UTC, at 2024-05-01T10:00:00Z (second
  1714557600) and at 2024-05-01T10:00:00.5Z, and the store after both calls of
  \<open>CreateQueue\<close> on the empty store.
\<close>

definition first_queue :: Queue where
  "first_queue =
     \<lparr>Id_q = ''q-a'', Description = [], Name = ''first'', RunId = [], ActorId = [],
      CreatedAt = ''2024-05-01T10:00:00Z''\<rparr>"

definition second_queue :: Queue where
  "second_queue =
     \<lparr>Id_q = ''q-b'', Description = [], Name = ''second'', RunId = [], ActorId = [],
      CreatedAt = ''2024-05-01T10:00:00.5Z''\<rparr>"

definition two_queues :: storage where
  "two_queues =
     [(''q-a'', \<lparr>metadata = Some (Parsed first_queue), msgs = []\<rparr>),
      (''q-b'', \<lparr>metadata = Some (Parsed second_queue), msgs = []\<rparr>)]"

section \<open>Properties\<close>

lemma wrap64_id: "- (2 ^ 63) \<le> x \<Longrightarrow> x < 2 ^ 63 \<Longrightarrow> wrap64 x = x"
  by (simp add: wrap64_def)

subsection \<open>sort.Slice yields a sorted permutation\<close>

lemma mset_insert_Slice: "mset (insert_Slice lt x ys) = add_mset x (mset ys)"
  by (induction ys) auto

lemma mset_sort_Slice: "mset (sort_Slice lt xs) = mset xs"
  by (induction xs) (auto simp: sort_Slice_def mset_insert_Slice)

lemma set_sort_Slice: "set (sort_Slice lt xs) = set xs"
  using mset_sort_Slice [of lt xs] by (metis set_mset_mset)

lemma length_sort_Slice: "length (sort_Slice lt xs) = length xs"
  using mset_sort_Slice [of lt xs] by (metis size_mset)

lemma distinct_map_sort_Slice:
  "distinct (map f (sort_Slice lt xs)) = distinct (map f xs)"
proof -
  have "mset (map f (sort_Slice lt xs)) = mset (map f xs)"
    by (simp add: mset_sort_Slice)
  then show ?thesis by (rule mset_eq_imp_distinct_iff)
qed

lemma sorted_wrt_insert_Slice:
  assumes tr: "\<And>a b c. le a b \<Longrightarrow> le b c \<Longrightarrow> le a c"
    and lt_le: "\<And>a b. lt a b \<Longrightarrow> le a b"
    and nlt_le: "\<And>a b. \<not> lt a b \<Longrightarrow> le b a"
  shows "sorted_wrt le ys \<Longrightarrow> sorted_wrt le (insert_Slice lt x ys)"
proof (induction ys)
  case Nil
  then show ?case by simp
next
  case (Cons y ys)
  show ?case
  proof (cases "lt y x")
    case True
    have "set (insert_Slice lt x ys) = insert x (set ys)"
      using mset_insert_Slice [of lt x ys] by (metis set_mset_mset set_mset_add_mset_insert)
    with Cons True lt_le show ?thesis by auto
  next
    case False
    then have "le x y" by (rule nlt_le)
    with Cons.prems tr have "\<forall>z\<in>set ys. le x z" by auto
    with Cons.prems False \<open>le x y\<close> show ?thesis by simp
  qed
qed

lemma sorted_wrt_sort_Slice:
  assumes tr: "\<And>a b c. le a b \<Longrightarrow> le b c \<Longrightarrow> le a c"
    and lt_le: "\<And>a b. lt a b \<Longrightarrow> le a b"
    and nlt_le: "\<And>a b. \<not> lt a b \<Longrightarrow> le b a"
  shows "sorted_wrt le (sort_Slice lt xs)"
proof (induction xs)
  case Nil
  then show ?case by (simp add: sort_Slice_def)
next
  case (Cons x xs)
  have "sort_Slice lt (x # xs) = insert_Slice lt x (sort_Slice lt xs)"
    by (simp add: sort_Slice_def)
  with Cons sorted_wrt_insert_Slice [of le lt, OF tr lt_le nlt_le] show ?case
    by simp
qed

lemma sorted_CreatedAt_asc:
  "sorted_wrt (\<lambda>a b. CreatedAt a \<le> CreatedAt b) (sort_Slice (less_CreatedAt False) xs)"
  by (rule sorted_wrt_sort_Slice) (auto simp: less_CreatedAt_def)

lemma sorted_CreatedAt_desc:
  "sorted_wrt (\<lambda>a b. CreatedAt a \<ge> CreatedAt b) (sort_Slice (less_CreatedAt True) xs)"
  by (rule sorted_wrt_sort_Slice) (auto simp: less_CreatedAt_def)

subsection \<open>Listing queues\<close>

lemma set_read_descriptors:
  "set (read_descriptors entries) =
     {q. \<exists>n d. (n, d) \<in> set entries \<and> metadata d = Some (Parsed q)}"
  by (induction entries rule: read_descriptors.induct)
     (auto split: option.splits json_file.splits)

lemma set_ReadDir: "set (ReadDir entries) = set entries"
  by (simp add: ReadDir_def)

lemma page_slice:
  assumes "0 \<le> s" and "1 \<le> p"
  shows "take (nat ((if s + p > int (length xs) then int (length xs) else s + p) - s)) (drop (nat s) xs)
         = take (nat p) (drop (nat s) xs)"
  using assms by auto

text \<open>
  Paging. For a page number of at least 1 and a page size of at least 1 (and
  products and sums that fit \<open>int64\<close>), \<open>GetQueues\<close> returns without error: the
  items are the requested page of the readable descriptors in the order of their
  \<open>CreatedAt\<close> strings (ascending, descending when \<open>desc\<close> is set), which is
  what the source compares; the total is the number of readable descriptors
  before paging, the total page count is \<open>ceil(total / pageSize)\<close>, and a page
  past the end is empty.
\<close>

theorem GetQueues_page:
  assumes page: "1 \<le> page" and size: "1 \<le> pageSize"
    and start_fits: "(page - 1) * pageSize < 2 ^ 63"
    and end_fits: "int (length (read_descriptors (ReadDir st))) + pageSize < 2 ^ 63"
  shows "GetQueues st page pageSize desc =
           (Return \<lparr>Items = take (nat pageSize) (drop (nat ((page - 1) * pageSize))
                               (sort_Slice (less_CreatedAt desc) (read_descriptors (ReadDir st)))),
                    Total = int (length (read_descriptors (ReadDir st))),
                    Page = page, PageSize = pageSize,
                    TotalPage = \<lceil>real_of_int (int (length (read_descriptors (ReadDir st))))
                                  / real_of_int pageSize\<rceil>\<rparr>, st)
         \<and> mset (sort_Slice (less_CreatedAt desc) (read_descriptors (ReadDir st)))
             = mset (read_descriptors (ReadDir st))
         \<and> sorted_wrt (\<lambda>a b. if desc then CreatedAt a \<ge> CreatedAt b else CreatedAt a \<le> CreatedAt b)
             (sort_Slice (less_CreatedAt desc) (read_descriptors (ReadDir st)))
         \<and> set (read_descriptors (ReadDir st))
             = {q. \<exists>n d. (n, d) \<in> set st \<and> metadata d = Some (Parsed q)}
         \<and> (int (length (read_descriptors (ReadDir st))) \<le> (page - 1) * pageSize \<longrightarrow>
              take (nat pageSize) (drop (nat ((page - 1) * pageSize))
                (sort_Slice (less_CreatedAt desc) (read_descriptors (ReadDir st)))) = [])"
proof -
  define ds where "ds = read_descriptors (ReadDir st)"
  define srt where "srt = sort_Slice (less_CreatedAt desc) ds"
  define s0 where "s0 = (page - 1) * pageSize"
  have len: "length srt = length ds"
    by (simp add: srt_def length_sort_Slice)
  have s0_nonneg: "0 \<le> s0"
    using page size by (simp add: s0_def)
  have w0: "wrap64 s0 = s0"
    using s0_nonneg start_fits by (intro wrap64_id) (simp_all add: s0_def)
  have get: "GetQueues st page pageSize desc =
      (Return \<lparr>Items = take (nat pageSize) (drop (nat s0) srt), Total = int (length ds),
               Page = page, PageSize = pageSize,
               TotalPage = \<lceil>real_of_int (int (length ds)) / real_of_int pageSize\<rceil>\<rparr>, st)"
  proof (cases "s0 > int (length ds)")
    case True
    have w1: "wrap64 (int (length ds) + pageSize) = int (length ds) + pageSize"
      using size end_fits by (intro wrap64_id) (simp_all add: ds_def)
    from True have "drop (nat s0) srt = []"
      using len by simp
    with True w0 w1 size show ?thesis
      unfolding GetQueues_def Let_def totalPage_def
      by (simp add: ds_def [symmetric] srt_def [symmetric] s0_def [symmetric] len)
  next
    case False
    have w1: "wrap64 (s0 + pageSize) = s0 + pageSize"
      using False s0_nonneg size end_fits by (intro wrap64_id) (simp_all add: ds_def)
    have "take (nat ((if s0 + pageSize > int (length srt) then int (length srt) else s0 + pageSize) - s0))
            (drop (nat s0) srt) = take (nat pageSize) (drop (nat s0) srt)"
      using s0_nonneg size by (rule page_slice)
    with False w0 w1 size s0_nonneg show ?thesis
      unfolding GetQueues_def Let_def totalPage_def
      by (simp add: ds_def [symmetric] srt_def [symmetric] s0_def [symmetric] len)
  qed
  have perm: "mset srt = mset ds"
    by (simp add: srt_def mset_sort_Slice)
  have sorted: "sorted_wrt (\<lambda>a b. if desc then CreatedAt a \<ge> CreatedAt b
                                    else CreatedAt a \<le> CreatedAt b) srt"
    using sorted_CreatedAt_asc [of ds] sorted_CreatedAt_desc [of ds]
    by (cases desc) (simp_all add: srt_def)
  have readable: "set ds = {q. \<exists>n d. (n, d) \<in> set st \<and> metadata d = Some (Parsed q)}"
    by (simp add: ds_def set_read_descriptors set_ReadDir)
  have past: "int (length ds) \<le> s0 \<longrightarrow> take (nat pageSize) (drop (nat s0) srt) = []"
    using len by simp
  from get perm sorted readable past show ?thesis
    unfolding ds_def srt_def s0_def by blast
qed

theorem GetQueues_page_witness:
  "GetQueues queues25 2 10 False =
     (Return \<lparr>Items = map descr25 (take 10 (drop 10 stamps25)), Total = 25, Page = 2,
              PageSize = 10, TotalPage = 3\<rparr>, queues25)
   \<and> GetQueues queues25 3 10 False =
     (Return \<lparr>Items = map descr25 (drop 20 stamps25), Total = 25, Page = 3,
              PageSize = 10, TotalPage = 3\<rparr>, queues25)
   \<and> GetQueues queues25 4 10 False =
     (Return \<lparr>Items = [], Total = 25, Page = 4, PageSize = 10, TotalPage = 3\<rparr>, queues25)"
proof -
  have srt: "sort_Slice (less_CreatedAt False) (read_descriptors (ReadDir queues25))
               = map descr25 stamps25"
    by code_simp
  have len: "length (read_descriptors (ReadDir queues25)) = 25"
    by code_simp
  have len': "length stamps25 = 25"
    by code_simp
  have p2: "GetQueues queues25 2 10 False =
     (Return \<lparr>Items = map descr25 (take 10 (drop 10 stamps25)), Total = 25, Page = 2,
              PageSize = 10, TotalPage = 3\<rparr>, queues25)"
    using GetQueues_page [of 2 10 queues25 False] by (simp add: srt len take_map drop_map)
  have p3: "GetQueues queues25 3 10 False =
     (Return \<lparr>Items = map descr25 (drop 20 stamps25), Total = 25, Page = 3,
              PageSize = 10, TotalPage = 3\<rparr>, queues25)"
    using GetQueues_page [of 3 10 queues25 False] by (simp add: srt len len' take_map drop_map)
  have p4: "GetQueues queues25 4 10 False =
     (Return \<lparr>Items = [], Total = 25, Page = 4, PageSize = 10, TotalPage = 3\<rparr>, queues25)"
    using GetQueues_page [of 4 10 queues25 False] by (simp add: srt len len')
  from p2 p3 p4 show ?thesis by simp
qed

text \<open>
  C6. The claim asks for the queues in the order of their creation. \<open>GetQueues\<close>
  compares the \<open>CreatedAt\<close> strings, and \<open>RFC3339Nano\<close> writes the fraction of a
  second without trailing zeros, so the strings of two instants need not be
  ordered as the instants are. Here the second queue is created half a second
  after the first one; its stamp ends in \<open>.5Z\<close>, which is below \<open>Z\<close>, and the
  ascending listing returns it first (the descending one last).
\<close>

theorem GetQueues_string_order:
  "(1714557600000000000 :: time) < 1714557600500000000
   \<and> CreatedAt second_queue < CreatedAt first_queue
   \<and> Format_RFC3339Nano 1714557600000000000 0 = ''2024-05-01T10:00:00Z''
   \<and> Format_RFC3339Nano 1714557600500000000 0 = ''2024-05-01T10:00:00.5Z''
   \<and> CreateQueue [] ''first'' [] [] [] ''q-a'' (Format_RFC3339Nano 1714557600000000000 0)
       = (Return ''q-a'', [(''q-a'', \<lparr>metadata = Some (Parsed first_queue), msgs = []\<rparr>)])
   \<and> CreateQueue [(''q-a'', \<lparr>metadata = Some (Parsed first_queue), msgs = []\<rparr>)]
         ''second'' [] [] [] ''q-b'' (Format_RFC3339Nano 1714557600500000000 0)
       = (Return ''q-b'', two_queues)
   \<and> GetQueues two_queues 1 10 False
       = (Return \<lparr>Items = [second_queue, first_queue], Total = 2, Page = 1, PageSize = 10,
                  TotalPage = 1\<rparr>, two_queues)
   \<and> GetQueues two_queues 1 10 True
       = (Return \<lparr>Items = [first_queue, second_queue], Total = 2, Page = 1, PageSize = 10,
                  TotalPage = 1\<rparr>, two_queues)"
  by code_simp

text \<open>
  C9. With a page number below 1 and a positive page size, \<open>start\<close> is negative
  and the slice expression \<open>allNamespaces[start:end]\<close> panics: \<open>GetQueues\<close>
  returns neither a result nor an error.
\<close>

theorem GetQueues_page_below_one:
  assumes "page < 1" and "1 \<le> pageSize" and "- (2 ^ 63) \<le> (page - 1) * pageSize"
  shows "wrap64 ((page - 1) * pageSize) < 0 \<and> GetQueues st page pageSize desc = (Panic, st)"
proof -
  have neg: "(page - 1) * pageSize < 0"
    using assms(1,2) by (simp add: mult_neg_pos)
  then have w: "wrap64 ((page - 1) * pageSize) = (page - 1) * pageSize"
    using assms(3) by (intro wrap64_id) simp_all
  with neg show ?thesis
    unfolding GetQueues_def Let_def by simp
qed

theorem GetQueues_page_below_one_witness:
  "wrap64 ((0 - 1) * 10) < 0 \<and> GetQueues queues25 0 10 False = (Panic, queues25)"
  using GetQueues_page_below_one [of 0 10 queues25 False] by simp

subsection \<open>The walk and the lease loop in closed form\<close>

lemma map_of_update_same: "map_of (AList.update k v al) k = Some v"
  by (simp add: update_conv')

lemma map_of_update_other: "k' \<noteq> k \<Longrightarrow> map_of (AList.update k v al) k' = map_of al k'"
  by (simp add: update_conv')

lemma delete_filter: "AList.delete k al = filter (\<lambda>p. fst p \<noteq> k) al"
  by (induction al) auto

lemma walk_closed:
  "walk now entries files acc =
     (walk_error entries, filter (\<lambda>p. fst p \<notin> set (purged now entries)) files,
      acc @ found now entries)"
proof (induction now entries files acc rule: walk.induct)
  case (1 now files acc)
  then show ?case by simp
next
  case (2 now name entries files acc)
  then show ?case by simp
next
  case (3 now name msg entries files acc)
  have "filter (\<lambda>p. fst p \<notin> set (purged now entries)) (filter (\<lambda>p. fst p \<noteq> name) files)
        = filter (\<lambda>p. fst p \<noteq> name \<and> fst p \<notin> set (purged now entries)) files"
    by (simp add: conj_commute)
  with 3 show ?case by (simp add: delete_filter)
qed

lemma lease_all_closed:
  "lease_all now selected files respMsg =
     (lease_writes now selected files,
      respMsg @ map (\<lambda>msg. response_Msg (lease_grant now msg)) selected)"
  by (induction selected arbitrary: files respMsg)
     (simp_all add: lease_writes_def Let_def lease_grant_def)

lemma ID_lease_grant: "ID (lease_grant now msg) = ID msg"
  by (simp add: lease_grant_def)

lemma msg_file_inj: "msg_file a = msg_file b \<longleftrightarrow> a = b"
  by (simp add: msg_file_def)

lemma lease_writes_snoc:
  "lease_writes now (ms @ [m]) files =
     AList.update (msg_file (ID m)) (Parsed (lease_grant now m)) (lease_writes now ms files)"
  by (simp add: lease_writes_def)

lemma lease_writes_other:
  "n \<notin> (\<lambda>m. msg_file (ID m)) ` set ms \<Longrightarrow> map_of (lease_writes now ms files) n = map_of files n"
proof (induction ms rule: rev_induct)
  case Nil
  then show ?case by (simp add: lease_writes_def)
next
  case (snoc m ms)
  then show ?case by (simp add: lease_writes_snoc map_of_update_other)
qed

lemma lease_writes_selected:
  "distinct (map ID ms) \<Longrightarrow> m \<in> set ms \<Longrightarrow>
     map_of (lease_writes now ms files) (msg_file (ID m)) = Some (Parsed (lease_grant now m))"
proof (induction ms rule: rev_induct)
  case Nil
  then show ?case by simp
next
  case (snoc x ms)
  show ?case
  proof (cases "m = x")
    case True
    then show ?thesis by (simp add: lease_writes_snoc map_of_update_same)
  next
    case False
    with snoc.prems have in_ms: "m \<in> set ms" and dist: "distinct (map ID ms)"
      by auto
    from in_ms have "ID m \<in> ID ` set ms"
      by (rule imageI)
    with snoc.prems have "ID m \<noteq> ID x"
      by auto
    with snoc.IH in_ms dist show ?thesis
      by (simp add: lease_writes_snoc map_of_update_other msg_file_inj)
  qed
qed

lemma found_entry:
  "m \<in> set (found now entries) \<Longrightarrow>
     \<exists>n. (n, Parsed m) \<in> set entries \<and> \<not> finished now m \<and> \<not> not_reenter now m"
  by (induction now entries rule: found.induct) (auto split: if_splits)

lemma purged_entry:
  "n \<in> set (purged now entries) \<Longrightarrow> \<exists>m. (n, Parsed m) \<in> set entries \<and> finished now m"
  by (induction now entries rule: purged.induct) (auto split: if_splits)

lemma purged_complete:
  "walk_error entries = None \<Longrightarrow> (n, Parsed m) \<in> set entries \<Longrightarrow> finished now m \<Longrightarrow>
     n \<in> set (purged now entries)"
  by (induction now entries rule: purged.induct) (auto split: if_splits)


lemma named_by_id_entry:
  "named_by_id files \<Longrightarrow> (n, Parsed m) \<in> set files \<Longrightarrow> n = msg_file (ID m)"
  by (auto simp: named_by_id_def list_all_iff)

lemma wf_files_unique:
  "wf_files files \<Longrightarrow> (n, f) \<in> set files \<Longrightarrow> (n, g) \<in> set files \<Longrightarrow> f = g"
  by (auto simp: wf_files_def dest: eq_key_imp_eq_value)

lemma wf_files_map_of:
  "wf_files files \<Longrightarrow> (n, f) \<in> set files \<longleftrightarrow> map_of files n = Some f"
  by (auto simp: wf_files_def dest: map_of_SomeD)

lemma wf_files_ReadDir: "wf_files (ReadDir files) = wf_files files"
proof -
  have "mset (map fst (ReadDir files)) = mset (map fst files)"
    by (simp add: ReadDir_def)
  then have "distinct (map fst (ReadDir files)) = distinct (map fst files)"
    by (rule mset_eq_imp_distinct_iff)
  then show ?thesis
    by (simp add: wf_files_def named_by_id_def list_all_iff ReadDir_def)
qed

lemma distinct_found:
  "wf_files entries \<Longrightarrow> distinct (map ID (found now entries))"
proof (induction now entries rule: found.induct)
  case (1 now)
  then show ?case by simp
next
  case (2 now name entries)
  then show ?case by simp
next
  case (3 now name msg entries)
  from "3.prems" have wf: "wf_files entries"
    by (simp add: wf_files_def named_by_id_def)
  from "3.prems" have name: "name = msg_file (ID msg)"
    by (simp add: wf_files_def named_by_id_def)
  from "3.prems" have fresh: "name \<notin> fst ` set entries"
    by (simp add: wf_files_def)
  have "ID msg \<notin> ID ` set (found now entries)"
  proof
    assume "ID msg \<in> ID ` set (found now entries)"
    then obtain m where m: "m \<in> set (found now entries)" and id: "ID m = ID msg"
      by auto
    from found_entry [OF m] obtain n where n: "(n, Parsed m) \<in> set entries"
      by blast
    with wf have "n = msg_file (ID m)"
      by (auto simp: wf_files_def dest: named_by_id_entry)
    with id name n fresh show False
      by force
  qed
  with 3 wf show ?case by simp
qed

lemma GetMsg_closed:
  assumes "map_of st queueId = Some d"
  shows "GetMsg st queueId limit now =
     (case walk_error (ReadDir (msgs d)) of
        Some err \<Rightarrow> (Error err, AList.update queueId (d\<lparr>msgs := kept_files now (msgs d)\<rparr>) st)
      | None \<Rightarrow>
          if int (length (found now (ReadDir (msgs d)))) > limit \<and> limit < 0
          then (Panic, AList.update queueId (d\<lparr>msgs := kept_files now (msgs d)\<rparr>) st)
          else (Return (map (\<lambda>msg. response_Msg (lease_grant now msg))
                         (selected_msgs now limit (msgs d))),
                AList.update queueId
                  (d\<lparr>msgs := lease_writes now (selected_msgs now limit (msgs d))
                              (kept_files now (msgs d))\<rparr>) st))"
  using assms
  by (simp add: GetMsg_def walk_closed lease_all_closed kept_files_def selected_msgs_def
      Let_def length_sort_Slice split: option.splits)

lemma GetMsg_Return:
  assumes "map_of st queueId = Some d" and "GetMsg st queueId limit now = (Return resp, st')"
  shows "walk_error (ReadDir (msgs d)) = None
     \<and> resp = map (\<lambda>msg. response_Msg (lease_grant now msg)) (selected_msgs now limit (msgs d))
     \<and> st' = AList.update queueId
               (d\<lparr>msgs := lease_writes now (selected_msgs now limit (msgs d))
                           (kept_files now (msgs d))\<rparr>) st"
  using assms(2) unfolding GetMsg_closed [OF assms(1)]
  by (auto split: option.splits if_splits)

lemma set_selected_msgs:
  "set (selected_msgs now limit files) \<subseteq> set (found now (ReadDir files))"
  using set_take_subset [of "nat limit" "sort_Slice less_UpdateTime (found now (ReadDir files))"]
  by (auto simp: selected_msgs_def Let_def set_sort_Slice)

lemma distinct_selected_msgs:
  assumes "wf_files files"
  shows "distinct (map ID (selected_msgs now limit files))"
proof -
  from assms have "distinct (map ID (found now (ReadDir files)))"
    by (intro distinct_found) (simp add: wf_files_ReadDir)
  then have "distinct (map ID (sort_Slice less_UpdateTime (found now (ReadDir files))))"
    by (simp add: distinct_map_sort_Slice)
  then show ?thesis
    by (simp add: selected_msgs_def Let_def take_map [symmetric] distinct_take)
qed

lemma ID_response_Msg: "ID (response_Msg msg) = ID msg"
  by (simp add: response_Msg_def)

lemma map_of_filter_keys:
  "map_of (filter (\<lambda>p. P (fst p)) al) k = (if P k then map_of al k else None)"
  by (induction al) auto

lemma map_of_kept_files:
  "map_of (kept_files now files) n =
     (if n \<in> set (purged now (ReadDir files)) then None else map_of files n)"
  using map_of_filter_keys [of "\<lambda>k. k \<notin> set (purged now (ReadDir files))" files n]
  by (simp add: kept_files_def)

lemma found_same_ID:
  assumes wf: "wf_files files"
    and x: "x \<in> set (found now (ReadDir files))"
    and m: "map_of files n = Some (Parsed m)"
    and id: "ID x = ID m"
  shows "x = m"
proof -
  from found_entry [OF x] obtain k where k: "(k, Parsed x) \<in> set files"
    by (auto simp: set_ReadDir)
  from m have n: "(n, Parsed m) \<in> set files"
    by (rule map_of_SomeD)
  from wf k have "k = msg_file (ID x)"
    by (auto simp: wf_files_def dest: named_by_id_entry)
  moreover from wf n have "n = msg_file (ID m)"
    by (auto simp: wf_files_def dest: named_by_id_entry)
  ultimately have "k = n"
    using id by simp
  with wf k n have "Parsed x = Parsed m"
    by (auto dest: wf_files_unique)
  then show ?thesis by simp
qed

lemma GetMsg_file_after:
  assumes dir: "map_of st queueId = Some d"
    and wf: "wf_files (msgs d)"
    and get: "GetMsg st queueId limit now = (Return resp, st')"
    and at_n: "map_of (msgs d) n = Some (Parsed m)"
  shows "\<exists>d'. map_of st' queueId = Some d' \<and> metadata d' = metadata d
     \<and> map_of (msgs d') n =
         (if finished now m then None
          else if ID m \<in> ID ` set resp then Some (Parsed (lease_grant now m))
          else Some (Parsed m))
     \<and> (ID m \<in> ID ` set resp \<longrightarrow>
          \<not> finished now m \<and> \<not> not_reenter now m
          \<and> response_Msg (lease_grant now m) \<in> set resp)"
proof -
  let ?sel = "selected_msgs now limit (msgs d)"
  let ?kept = "kept_files now (msgs d)"
  let ?d = "d\<lparr>msgs := lease_writes now ?sel ?kept\<rparr>"
  from GetMsg_Return [OF dir get]
  have ok: "walk_error (ReadDir (msgs d)) = None"
    and resp: "resp = map (\<lambda>msg. response_Msg (lease_grant now msg)) ?sel"
    and st': "st' = AList.update queueId ?d st"
    by simp_all
  have ids: "ID ` set resp = ID ` set ?sel"
    by (simp add: resp image_image ID_response_Msg ID_lease_grant)
  from at_n have entry: "(n, Parsed m) \<in> set (ReadDir (msgs d))"
    by (simp add: set_ReadDir map_of_SomeD)
  from wf at_n have n: "n = msg_file (ID m)"
    by (auto simp: wf_files_def dest: named_by_id_entry map_of_SomeD)
  have same: "x = m" if "x \<in> set ?sel" and "ID x = ID m" for x
    using that set_selected_msgs [of now limit "msgs d"] found_same_ID [OF wf _ at_n]
    by blast
  have sel_found: "\<not> finished now x \<and> \<not> not_reenter now x" if "x \<in> set ?sel" for x
    using that set_selected_msgs [of now limit "msgs d"] found_entry [of x now "ReadDir (msgs d)"]
    by blast
  have in_sel: "ID m \<in> ID ` set ?sel \<longleftrightarrow> m \<in> set ?sel"
    using same by auto
  have purged_iff: "n \<in> set (purged now (ReadDir (msgs d))) \<longleftrightarrow> finished now m"
  proof
    assume "n \<in> set (purged now (ReadDir (msgs d)))"
    from purged_entry [OF this] obtain m' where
      m': "(n, Parsed m') \<in> set (msgs d)" and fin: "finished now m'"
      by (auto simp: set_ReadDir)
    from wf m' at_n have "Parsed m' = Parsed m"
      by (auto dest: wf_files_unique map_of_SomeD)
    with fin show "finished now m" by simp
  next
    assume "finished now m"
    with ok entry show "n \<in> set (purged now (ReadDir (msgs d)))"
      by (rule purged_complete)
  qed
  have lookup: "map_of (lease_writes now ?sel ?kept) n =
         (if finished now m then None
          else if ID m \<in> ID ` set resp then Some (Parsed (lease_grant now m))
          else Some (Parsed m))"
  proof (cases "m \<in> set ?sel")
    case True
    with sel_found have "\<not> finished now m" by blast
    moreover from True have "map_of (lease_writes now ?sel ?kept) (msg_file (ID m))
        = Some (Parsed (lease_grant now m))"
      using distinct_selected_msgs [OF wf] by (intro lease_writes_selected)
    ultimately show ?thesis
      using True by (simp add: ids in_sel n)
  next
    case False
    then have "n \<notin> (\<lambda>x. msg_file (ID x)) ` set ?sel"
      using same by (auto simp: n msg_file_inj)
    then have "map_of (lease_writes now ?sel ?kept) n = map_of ?kept n"
      by (rule lease_writes_other)
    with False show ?thesis
      by (simp add: ids in_sel map_of_kept_files purged_iff at_n)
  qed
  have returned: "ID m \<in> ID ` set resp \<longrightarrow>
          \<not> finished now m \<and> \<not> not_reenter now m
          \<and> response_Msg (lease_grant now m) \<in> set resp"
  proof
    assume "ID m \<in> ID ` set resp"
    then have m_sel: "m \<in> set ?sel"
      by (simp add: ids in_sel)
    then have "response_Msg (lease_grant now m) \<in> set resp"
      by (simp add: resp)
    with sel_found [OF m_sel] show "\<not> finished now m \<and> \<not> not_reenter now m
          \<and> response_Msg (lease_grant now m) \<in> set resp"
      by simp
  qed
  have "map_of st' queueId = Some ?d"
    by (simp add: st' map_of_update_same)
  with lookup returned show ?thesis
    by simp
qed

subsection \<open>Polling: the lease grant\<close>

lemma GetMsg_returned_file:
  assumes dir: "map_of st queueId = Some d"
    and wf: "wf_files (msgs d)"
    and get: "GetMsg st queueId limit now = (Return resp, st')"
    and r: "r \<in> set resp"
  shows "\<exists>m. map_of (msgs d) (msg_file (ID r)) = Some (Parsed m)
     \<and> r = response_Msg (lease_grant now m) \<and> ID m = ID r"
proof -
  from GetMsg_Return [OF dir get] r obtain x where
    x: "x \<in> set (selected_msgs now limit (msgs d))" and rx: "r = response_Msg (lease_grant now x)"
    by auto
  from x set_selected_msgs [of now limit "msgs d"] have "x \<in> set (found now (ReadDir (msgs d)))"
    by blast
  from found_entry [OF this] obtain k where k: "(k, Parsed x) \<in> set (msgs d)"
    by (auto simp: set_ReadDir)
  with wf have "k = msg_file (ID x)"
    by (auto simp: wf_files_def dest: named_by_id_entry)
  moreover from wf k have "map_of (msgs d) k = Some (Parsed x)"
    by (simp add: wf_files_map_of)
  moreover have "ID r = ID x"
    by (simp add: rx ID_response_Msg ID_lease_grant)
  ultimately show ?thesis
    using rx by auto
qed

lemma Duration_seconds_exact:
  assumes "- (2 ^ 63) \<le> t * Second" and "t * Second < 2 ^ 63"
  shows "Duration_seconds t = t * 1000000000"
proof -
  from assms have "- (2 ^ 63) \<le> t" and "t < 2 ^ 63"
    by (simp_all add: Second_def)
  then have "wrap64 t = t"
    by (rule wrap64_id)
  moreover from assms have "wrap64 (t * Second) = t * Second"
    by (intro wrap64_id)
  ultimately show ?thesis
    by (simp add: Duration_seconds_def Second_def)
qed

text \<open>
  C1 (as amended). For every message that a poll returns, the record in the
  message's file before the poll is \<open>m\<close> and the record after it is \<open>m\<close> with
  \<open>ReenterTime\<close> set to \<open>now\<close> plus the timeout (\<open>now + timeout\<close> seconds whenever
  the timeout in nanoseconds fits \<open>int64\<close>) and \<open>Retried\<close> incremented by one;
  \<open>UpdateTime\<close> and every other field are left as they were, and the message
  returned is the view of the record written. The directory is one that the
  operations produce (\<open>wf_files\<close>).
\<close>

theorem GetMsg_lease_grant:
  assumes dir: "map_of st queueId = Some d"
    and wf: "wf_files (msgs d)"
    and get: "GetMsg st queueId limit now = (Return resp, st')"
    and r: "r \<in> set resp"
  shows "\<exists>m m' d'.
       map_of (msgs d) (msg_file (ID r)) = Some (Parsed m)
     \<and> map_of st' queueId = Some d'
     \<and> map_of (msgs d') (msg_file (ID r)) = Some (Parsed m')
     \<and> m' = m\<lparr>ReenterTime := Add now (Duration_seconds (Timeout m)), Retried := Retried m + 1\<rparr>
     \<and> (- (2 ^ 63) \<le> Timeout m * Second \<and> Timeout m * Second < 2 ^ 63 \<longrightarrow>
          ReenterTime m' = now + Timeout m * 1000000000)
     \<and> Retried m' = Retried m + 1
     \<and> UpdateTime m' = UpdateTime m
     \<and> r = response_Msg m'"
proof -
  from GetMsg_returned_file [OF dir wf get r] obtain m where
    m: "map_of (msgs d) (msg_file (ID r)) = Some (Parsed m)"
    and rm: "r = response_Msg (lease_grant now m)" and id: "ID m = ID r"
    by blast
  from r id have returned: "ID m \<in> ID ` set resp"
    by (metis imageI)
  from GetMsg_file_after [OF dir wf get m] returned obtain d' where
    d': "map_of st' queueId = Some d'"
    and after: "map_of (msgs d') (msg_file (ID r)) = Some (Parsed (lease_grant now m))"
    by auto
  have exact: "- (2 ^ 63) \<le> Timeout m * Second \<and> Timeout m * Second < 2 ^ 63 \<longrightarrow>
          ReenterTime (lease_grant now m) = now + Timeout m * 1000000000"
    by (simp add: lease_grant_def Add_def Duration_seconds_exact)
  from m d' after rm exact show ?thesis
    by (intro exI [of _ m] exI [of _ "lease_grant now m"] exI [of _ d'])
       (simp add: lease_grant_def)
qed

theorem GetMsg_lease_grant_witness:
  "\<exists>m m' d'.
       map_of (msgs dir1) (msg_file (ID (response_Msg leased1))) = Some (Parsed m)
     \<and> map_of store1_leased ''q-1'' = Some d'
     \<and> map_of (msgs d') (msg_file (ID (response_Msg leased1))) = Some (Parsed m')
     \<and> m' = m\<lparr>ReenterTime := Add 1700000100000000000 (Duration_seconds (Timeout m)),
               Retried := Retried m + 1\<rparr>
     \<and> (- (2 ^ 63) \<le> Timeout m * Second \<and> Timeout m * Second < 2 ^ 63 \<longrightarrow>
          ReenterTime m' = 1700000100000000000 + Timeout m * 1000000000)
     \<and> Retried m' = Retried m + 1
     \<and> UpdateTime m' = UpdateTime m
     \<and> response_Msg leased1 = response_Msg m'"
proof -
  have dir: "map_of store1 ''q-1'' = Some dir1"
    by (simp add: store1_def)
  have wf: "wf_files (msgs dir1)"
    by code_simp
  have get: "GetMsg store1 ''q-1'' 10 1700000100000000000
      = (Return [response_Msg leased1], store1_leased)"
    by code_simp
  have r: "response_Msg leased1 \<in> set [response_Msg leased1]"
    by simp
  from GetMsg_lease_grant [OF dir wf get r] show ?thesis .
qed

text \<open>
  The claim as stated asks for \<open>UpdateTime = now\<close> in the record written. The poll
  of \<open>store1\<close> at second 1700000100 leases \<open>m-1\<close> and leaves its \<open>UpdateTime\<close> at
  second 1700000000.
\<close>

theorem GetMsg_UpdateTime_counterexample:
  "GetMsg store1 ''q-1'' 10 1700000100000000000 = (Return [response_Msg leased1], store1_leased)
   \<and> map_of store1_leased ''q-1'' = Some (dir1\<lparr>msgs := [(''m-1.json'', Parsed leased1)]\<rparr>)
   \<and> UpdateTime leased1 = 1700000000000000000
   \<and> UpdateTime leased1 \<noteq> 1700000100000000000"
  by code_simp

subsection \<open>Polling: what happens to each file\<close>

lemma named_by_id_update:
  "named_by_id files \<Longrightarrow> ID m = i \<Longrightarrow> named_by_id (AList.update (msg_file i) (Parsed m) files)"
  by (induction files) (auto simp: named_by_id_def)

lemma wf_files_update:
  "wf_files files \<Longrightarrow> ID m = i \<Longrightarrow> wf_files (AList.update (msg_file i) (Parsed m) files)"
  by (simp add: wf_files_def distinct_update named_by_id_update)

lemma wf_files_filter: "wf_files files \<Longrightarrow> wf_files (filter P files)"
  by (simp add: wf_files_def named_by_id_def list_all_iff distinct_map_filter)

lemma wf_files_delete: "wf_files files \<Longrightarrow> wf_files (AList.delete k files)"
  by (simp add: delete_filter wf_files_filter)

lemma wf_files_lease_writes:
  "wf_files files \<Longrightarrow> wf_files (lease_writes now ms files)"
proof (induction ms rule: rev_induct)
  case Nil
  then show ?case by (simp add: lease_writes_def)
next
  case (snoc m ms)
  then show ?case
    by (simp add: lease_writes_snoc wf_files_update ID_lease_grant)
qed



lemma Retried_lease_grants:
  "Retried (foldl (\<lambda>x t. lease_grant t x) m0 ts) = Retried m0 + int (length ts)
   \<and> Retry (foldl (\<lambda>x t. lease_grant t x) m0 ts) = Retry m0"
  by (induction ts rule: rev_induct) (simp_all add: lease_grant_def)

subsection \<open>Polling: purge, skip, retry budget\<close>

text \<open>
  C2. In a poll that returns, a message record is deleted from the directory and
  left out of the result exactly when \<open>SuccessAt > 0\<close>, or \<open>FailedAt > 0\<close>, or
  \<open>Deadline < now.Unix()\<close>, or \<open>ReenterTime\<close> is before \<open>now\<close> and
  \<open>Retried \<ge> Retry\<close>. So a record that started with \<open>Retried = 0\<close> and
  \<open>Retry = R\<close> and was granted \<open>R\<close> leases (at the instants \<open>ts\<close>) is deleted and
  not leased by a poll after the last lease has expired. The directory is one
  that the operations produce (\<open>wf_files\<close>).
\<close>

theorem GetMsg_purge:
  assumes dir: "map_of st queueId = Some d"
    and wf: "wf_files (msgs d)"
    and get: "GetMsg st queueId limit now = (Return resp, st')"
    and at_n: "map_of (msgs d) n = Some (Parsed m)"
  shows "\<exists>d'. map_of st' queueId = Some d'
     \<and> ((map_of (msgs d') n = None \<and> ID m \<notin> ID ` set resp)
          = (SuccessAt m > 0 \<or> FailedAt m > 0 \<or> Deadline m < Unix now
             \<or> (ReenterTime m < now \<and> Retried m \<ge> Retry m)))
     \<and> (Retried m0 = 0 \<and> Retry m0 = int (length ts)
          \<and> m = foldl (\<lambda>x t. lease_grant t x) m0 ts \<and> ReenterTime m < now \<longrightarrow>
          map_of (msgs d') n = None \<and> ID m \<notin> ID ` set resp)"
proof -
  from GetMsg_file_after [OF dir wf get at_n] obtain d' where
    d': "map_of st' queueId = Some d'"
    and after: "map_of (msgs d') n =
         (if finished now m then None
          else if ID m \<in> ID ` set resp then Some (Parsed (lease_grant now m))
          else Some (Parsed m))"
    and returned: "ID m \<in> ID ` set resp \<longrightarrow> \<not> finished now m"
    by blast
  have iff: "(map_of (msgs d') n = None \<and> ID m \<notin> ID ` set resp) = finished now m"
    using after returned by auto
  have test: "finished now m = (SuccessAt m > 0 \<or> FailedAt m > 0 \<or> Deadline m < Unix now
             \<or> (ReenterTime m < now \<and> Retried m \<ge> Retry m))"
    by (simp add: finished_def Before_def)
  have exhausted: "finished now m"
    if "Retried m0 = 0" and "Retry m0 = int (length ts)"
      and "m = foldl (\<lambda>x t. lease_grant t x) m0 ts" and "ReenterTime m < now"
    using that Retried_lease_grants [of m0 ts] by (simp add: finished_def Before_def)
  from d' iff test exhausted show ?thesis
    by (intro exI [of _ d']) (simp only: simp_thms, blast)
qed

theorem GetMsg_purge_witness:
  "Retried msg2 = 0 \<and> Retry msg2 = int (length [1700000000500000000 :: int])
   \<and> leased2 = foldl (\<lambda>x t. lease_grant t x) msg2 [1700000000500000000]
   \<and> ReenterTime leased2 < 1700000002000000000
   \<and> GetMsg (store_of [(''m-2.json'', Parsed leased2)]) ''q-1'' 10 1700000002000000000
       = (Return [], store_of [])
   \<and> (\<exists>d'. map_of (store_of []) ''q-1'' = Some d'
         \<and> map_of (msgs d') ''m-2.json'' = None \<and> ID leased2 \<notin> ID ` set ([] :: Msg list))"
proof -
  have dir: "map_of (store_of [(''m-2.json'', Parsed leased2)]) ''q-1''
      = Some \<lparr>metadata = Some (Parsed orders), msgs = [(''m-2.json'', Parsed leased2)]\<rparr>"
    by (simp add: store_of_def)
  have wf: "wf_files (msgs \<lparr>metadata = Some (Parsed orders),
      msgs = [(''m-2.json'', Parsed leased2)]\<rparr>)"
    by code_simp
  have get: "GetMsg (store_of [(''m-2.json'', Parsed leased2)]) ''q-1'' 10 1700000002000000000
       = (Return [], store_of [])"
    by code_simp
  have at_n: "map_of (msgs \<lparr>metadata = Some (Parsed orders),
      msgs = [(''m-2.json'', Parsed leased2)]\<rparr>) ''m-2.json'' = Some (Parsed leased2)"
    by simp
  have grants: "Retried msg2 = 0 \<and> Retry msg2 = int (length [1700000000500000000 :: int])
     \<and> leased2 = foldl (\<lambda>x t. lease_grant t x) msg2 [1700000000500000000]
     \<and> ReenterTime leased2 < 1700000002000000000"
    by code_simp
  from GetMsg_purge [OF dir wf get at_n, of msg2 "[1700000000500000000]"]
    grants get
  show ?thesis
    by blast
qed

lemma finished_never_leased:
  assumes "ReenterTime m = zero_time" and "Retried m = 0" and "Retry m = 0"
    and "zero_time < now"
  shows "finished now m"
  using assms by (simp add: finished_def Before_def)

text \<open>
  C10. A message enqueued with \<open>retry = 0\<close> is deleted by the first poll after
  the enqueue and is not in its result: \<open>Retried = 0 \<ge> Retry\<close>, and the zero
  \<open>ReenterTime\<close> is before any reading of the clock (one after year 1). The
  poll is one that returns, over a directory that the operations produce.
\<close>

theorem GetMsg_retry_zero:
  assumes dir: "map_of st (req_QueueId req) = Some d"
    and wf: "wf_files (msgs d)"
    and retry: "req_Retry req = 0"
    and create: "CreateMsg st req newId now1 now2 = (Return newId, st1)"
    and clock: "zero_time < now"
    and get: "GetMsg st1 (req_QueueId req) limit now = (Return resp, st2)"
  shows "\<exists>d2. map_of st2 (req_QueueId req) = Some d2
     \<and> map_of (msgs d2) (msg_file newId) = None \<and> newId \<notin> ID ` set resp"
proof -
  let ?m = "\<lparr>ID = newId, QueueID = req_QueueId req, Name_m = req_Name req,
             Payload = req_PayLoad req, Timeout = req_Timeout req,
             Deadline = req_Deadline req, Retry = req_Retry req, Retried = 0,
             SuccessAt = 0, FailedAt = 0, Desc = [],
             ReenterTime = zero_time, UpdateTime = now2\<rparr>"
  let ?d = "d\<lparr>msgs := AList.update (msg_file newId) (Parsed ?m) (msgs d)\<rparr>"
  from create dir have st1: "st1 = AList.update (req_QueueId req) ?d st"
    by (simp add: CreateMsg_def isDirExists_def split: if_splits)
  then have dir1: "map_of st1 (req_QueueId req) = Some ?d"
    by (simp add: map_of_update_same)
  have wf1: "wf_files (msgs ?d)"
    using wf by (simp add: wf_files_update)
  have at_n: "map_of (msgs ?d) (msg_file newId) = Some (Parsed ?m)"
    by (simp add: map_of_update_same)
  have fin: "finished now ?m"
    using retry clock by (intro finished_never_leased) simp_all
  from GetMsg_file_after [OF dir1 wf1 get at_n] fin show ?thesis
    by auto
qed

theorem GetMsg_retry_zero_witness:
  "CreateMsg store1 req0 ''m-0'' 1700000000000000000 1700000000000000000
     = (Return ''m-0'', store_of [(''m-1.json'', Parsed msg1), (''m-0.json'', Parsed msg0)])
   \<and> GetMsg (store_of [(''m-1.json'', Parsed msg1), (''m-0.json'', Parsed msg0)]) ''q-1'' 10
        1700000100000000000
     = (Return [response_Msg leased1], store_of [(''m-1.json'', Parsed leased1)])
   \<and> (\<exists>d2. map_of (store_of [(''m-1.json'', Parsed leased1)]) (req_QueueId req0) = Some d2
     \<and> map_of (msgs d2) (msg_file ''m-0'') = None
     \<and> ''m-0'' \<notin> ID ` set [response_Msg leased1])"
proof -
  have dir: "map_of store1 (req_QueueId req0) = Some dir1"
    by code_simp
  have wf: "wf_files (msgs dir1)"
    by code_simp
  have retry: "req_Retry req0 = 0"
    by code_simp
  have create: "CreateMsg store1 req0 ''m-0'' 1700000000000000000 1700000000000000000
     = (Return ''m-0'', store_of [(''m-1.json'', Parsed msg1), (''m-0.json'', Parsed msg0)])"
    by code_simp
  have clock: "zero_time < 1700000100000000000"
    by code_simp
  have get: "GetMsg (store_of [(''m-1.json'', Parsed msg1), (''m-0.json'', Parsed msg0)])
        (req_QueueId req0) 10 1700000100000000000
     = (Return [response_Msg leased1], store_of [(''m-1.json'', Parsed leased1)])"
    by code_simp
  have q: "req_QueueId req0 = ''q-1''"
    by code_simp
  from GetMsg_retry_zero [OF dir wf retry create clock get] create get q show ?thesis
    by simp
qed







subsection \<open>Updating a queue\<close>

text \<open>
  C7. \<open>UpdateQueue\<close> on a queue directory that does not exist returns without
  error and leaves the store as it is. On a directory whose descriptor parses
  (and names the directory as its id, as \<open>CreateQueue\<close> writes it) it returns
  without error and rewrites the descriptor with the new name and description;
  \<open>Id\<close>, \<open>RunId\<close>, \<open>ActorId\<close> and \<open>CreatedAt\<close> are unchanged, and so are the
  message files and every other directory.
\<close>

theorem UpdateQueue_frame:
  "(map_of st queueId = None \<longrightarrow> UpdateQueue st queueId name description = (Return (), st))
   \<and> (map_of st queueId = Some d \<and> metadata d = Some (Parsed queue) \<and> Id_q queue = queueId \<longrightarrow>
        (\<exists>queue' st'.
           UpdateQueue st queueId name description = (Return (), st')
           \<and> map_of st' queueId = Some (d\<lparr>metadata := Some (Parsed queue')\<rparr>)
           \<and> (\<forall>other. other \<noteq> queueId \<longrightarrow> map_of st' other = map_of st other)
           \<and> Name queue' = name \<and> Description queue' = description
           \<and> Id_q queue' = Id_q queue \<and> RunId queue' = RunId queue
           \<and> ActorId queue' = ActorId queue \<and> CreatedAt queue' = CreatedAt queue))"
proof (intro conjI impI)
  assume "map_of st queueId = None"
  then show "UpdateQueue st queueId name description = (Return (), st)"
    by (simp add: UpdateQueue_def isDirExists_def)
next
  assume a: "map_of st queueId = Some d \<and> metadata d = Some (Parsed queue) \<and> Id_q queue = queueId"
  let ?q = "queue\<lparr>Name := name, Description := description\<rparr>"
  let ?st = "AList.update queueId (d\<lparr>metadata := Some (Parsed ?q)\<rparr>) st"
  from a have "UpdateQueue st queueId name description = (Return (), ?st)"
    by (simp add: UpdateQueue_def isDirExists_def updateMetadata_def)
  moreover have "map_of ?st queueId = Some (d\<lparr>metadata := Some (Parsed ?q)\<rparr>)"
    by (rule map_of_update_same)
  moreover have "\<forall>other. other \<noteq> queueId \<longrightarrow> map_of ?st other = map_of st other"
    by (simp add: map_of_update_other)
  ultimately show "\<exists>queue' st'.
           UpdateQueue st queueId name description = (Return (), st')
           \<and> map_of st' queueId = Some (d\<lparr>metadata := Some (Parsed queue')\<rparr>)
           \<and> (\<forall>other. other \<noteq> queueId \<longrightarrow> map_of st' other = map_of st other)
           \<and> Name queue' = name \<and> Description queue' = description
           \<and> Id_q queue' = Id_q queue \<and> RunId queue' = RunId queue
           \<and> ActorId queue' = ActorId queue \<and> CreatedAt queue' = CreatedAt queue"
    by (intro exI [of _ ?q] exI [of _ ?st]) simp
qed

theorem UpdateQueue_frame_witness:
  "map_of store1 ''q-9'' = None
   \<and> UpdateQueue store1 ''q-9'' ''invoices'' ''invoice events'' = (Return (), store1)
   \<and> map_of store1 ''q-1'' = Some dir1 \<and> metadata dir1 = Some (Parsed orders)
   \<and> Id_q orders = ''q-1''
   \<and> (\<exists>queue' st'.
         UpdateQueue store1 ''q-1'' ''invoices'' ''invoice events'' = (Return (), st')
       \<and> map_of st' ''q-1'' = Some (dir1\<lparr>metadata := Some (Parsed queue')\<rparr>)
       \<and> Name queue' = ''invoices'' \<and> Description queue' = ''invoice events''
       \<and> Id_q queue' = Id_q orders \<and> RunId queue' = RunId orders
       \<and> ActorId queue' = ActorId orders \<and> CreatedAt queue' = CreatedAt orders)"
proof -
  have missing: "map_of store1 ''q-9'' = None"
    by code_simp
  have present: "map_of store1 ''q-1'' = Some dir1 \<and> metadata dir1 = Some (Parsed orders)
     \<and> Id_q orders = ''q-1''"
    by code_simp
  from UpdateQueue_frame [of store1 "''q-9''" "''invoices''" "''invoice events''" dir1 orders]
    missing
  have noop: "UpdateQueue store1 ''q-9'' ''invoices'' ''invoice events'' = (Return (), store1)"
    by blast
  from UpdateQueue_frame [of store1 "''q-1''" "''invoices''" "''invoice events''" dir1 orders]
    present missing noop
  show ?thesis
    by blast
qed

subsection \<open>Enqueueing\<close>

text \<open>
  C5. \<open>CreateMsg\<close> fails with the deadline error when the deadline is before
  \<open>now + 300\<close> seconds and leaves the store as it is; otherwise it fails with
  \<open>ErrResourceNotFound\<close> when the queue directory does not exist; otherwise (so
  also with the deadline at \<open>now + 301\<close>) it returns the generated id and writes
  the file of that id with \<open>UpdateTime = now\<close>, \<open>Retried = 0\<close>, the zero
  \<open>ReenterTime\<close> and the fields of the request.
\<close>

theorem CreateMsg_cases:
  "(req_Deadline req < Unix now1 + 300 \<longrightarrow>
      CreateMsg st req newId now1 now2 = (Error ErrDeadline, st))
   \<and> (Unix now1 + 300 \<le> req_Deadline req \<and> map_of st (req_QueueId req) = None \<longrightarrow>
      CreateMsg st req newId now1 now2 = (Error ErrResourceNotFound, st))
   \<and> (Unix now1 + 300 \<le> req_Deadline req \<and> map_of st (req_QueueId req) = Some d \<longrightarrow>
      (\<exists>msg st'.
         CreateMsg st req newId now1 now2 = (Return newId, st')
         \<and> map_of st' (req_QueueId req)
             = Some (d\<lparr>msgs := AList.update (msg_file newId) (Parsed msg) (msgs d)\<rparr>)
         \<and> (\<forall>other. other \<noteq> req_QueueId req \<longrightarrow> map_of st' other = map_of st other)
         \<and> ID msg = newId \<and> QueueID msg = req_QueueId req \<and> Name_m msg = req_Name req
         \<and> Payload msg = req_PayLoad req \<and> Deadline msg = req_Deadline req
         \<and> Retry msg = req_Retry req \<and> Timeout msg = req_Timeout req
         \<and> UpdateTime msg = now2 \<and> Retried msg = 0 \<and> ReenterTime msg = zero_time
         \<and> SuccessAt msg = 0 \<and> FailedAt msg = 0))
   \<and> (req_Deadline req = Unix now1 + 301 \<and> map_of st (req_QueueId req) = Some d \<longrightarrow>
      fst (CreateMsg st req newId now1 now2) = Return newId)"
proof (intro conjI impI)
  assume "req_Deadline req < Unix now1 + 300"
  then show "CreateMsg st req newId now1 now2 = (Error ErrDeadline, st)"
    by (simp add: CreateMsg_def)
next
  assume "Unix now1 + 300 \<le> req_Deadline req \<and> map_of st (req_QueueId req) = None"
  then show "CreateMsg st req newId now1 now2 = (Error ErrResourceNotFound, st)"
    by (simp add: CreateMsg_def isDirExists_def)
next
  assume a: "Unix now1 + 300 \<le> req_Deadline req \<and> map_of st (req_QueueId req) = Some d"
  let ?m = "\<lparr>ID = newId, QueueID = req_QueueId req, Name_m = req_Name req,
             Payload = req_PayLoad req, Timeout = req_Timeout req,
             Deadline = req_Deadline req, Retry = req_Retry req, Retried = 0,
             SuccessAt = 0, FailedAt = 0, Desc = [],
             ReenterTime = zero_time, UpdateTime = now2\<rparr>"
  let ?d = "d\<lparr>msgs := AList.update (msg_file newId) (Parsed ?m) (msgs d)\<rparr>"
  let ?st = "AList.update (req_QueueId req) ?d st"
  from a have "CreateMsg st req newId now1 now2 = (Return newId, ?st)"
    by (simp add: CreateMsg_def isDirExists_def)
  moreover have "map_of ?st (req_QueueId req) = Some ?d"
    by (rule map_of_update_same)
  moreover have "\<forall>other. other \<noteq> req_QueueId req \<longrightarrow> map_of ?st other = map_of st other"
    by (simp add: map_of_update_other)
  ultimately show "\<exists>msg st'.
         CreateMsg st req newId now1 now2 = (Return newId, st')
         \<and> map_of st' (req_QueueId req)
             = Some (d\<lparr>msgs := AList.update (msg_file newId) (Parsed msg) (msgs d)\<rparr>)
         \<and> (\<forall>other. other \<noteq> req_QueueId req \<longrightarrow> map_of st' other = map_of st other)
         \<and> ID msg = newId \<and> QueueID msg = req_QueueId req \<and> Name_m msg = req_Name req
         \<and> Payload msg = req_PayLoad req \<and> Deadline msg = req_Deadline req
         \<and> Retry msg = req_Retry req \<and> Timeout msg = req_Timeout req
         \<and> UpdateTime msg = now2 \<and> Retried msg = 0 \<and> ReenterTime msg = zero_time
         \<and> SuccessAt msg = 0 \<and> FailedAt msg = 0"
    by (intro exI [of _ ?m] exI [of _ ?st]) simp
next
  assume "req_Deadline req = Unix now1 + 301 \<and> map_of st (req_QueueId req) = Some d"
  then show "fst (CreateMsg st req newId now1 now2) = Return newId"
    by (simp add: CreateMsg_def isDirExists_def Let_def)
qed

theorem CreateMsg_cases_witness:
  "req_Deadline (req0\<lparr>req_Deadline := 1700000299\<rparr>) < Unix 1700000000000000000 + 300
   \<and> CreateMsg store1 (req0\<lparr>req_Deadline := 1700000299\<rparr>) ''m-0'' 1700000000000000000
        1700000000000000001 = (Error ErrDeadline, store1)
   \<and> map_of store1 (req_QueueId (req0\<lparr>req_QueueId := ''q-9''\<rparr>)) = None
   \<and> CreateMsg store1 (req0\<lparr>req_QueueId := ''q-9''\<rparr>) ''m-0'' 1700000000000000000
        1700000000000000001 = (Error ErrResourceNotFound, store1)
   \<and> req_Deadline (req0\<lparr>req_Deadline := 1700000301\<rparr>) = Unix 1700000000000000000 + 301
   \<and> map_of store1 (req_QueueId (req0\<lparr>req_Deadline := 1700000301\<rparr>)) = Some dir1
   \<and> fst (CreateMsg store1 (req0\<lparr>req_Deadline := 1700000301\<rparr>) ''m-0'' 1700000000000000000
        1700000000000000001) = Return ''m-0''
   \<and> (\<exists>msg st'.
         CreateMsg store1 (req0\<lparr>req_Deadline := 1700000301\<rparr>) ''m-0'' 1700000000000000000
           1700000000000000001 = (Return ''m-0'', st')
       \<and> map_of st' ''q-1''
           = Some (dir1\<lparr>msgs := AList.update (msg_file ''m-0'') (Parsed msg) (msgs dir1)\<rparr>)
       \<and> ID msg = ''m-0'' \<and> UpdateTime msg = 1700000000000000001 \<and> Retried msg = 0
       \<and> ReenterTime msg = zero_time \<and> Deadline msg = 1700000301)"
proof -
  have early: "req_Deadline (req0\<lparr>req_Deadline := 1700000299\<rparr>) < Unix 1700000000000000000 + 300"
    by code_simp
  have missing: "Unix 1700000000000000000 + 300 \<le> req_Deadline (req0\<lparr>req_QueueId := ''q-9''\<rparr>)
     \<and> map_of store1 (req_QueueId (req0\<lparr>req_QueueId := ''q-9''\<rparr>)) = None"
    by code_simp
  have ok: "Unix 1700000000000000000 + 300 \<le> req_Deadline (req0\<lparr>req_Deadline := 1700000301\<rparr>)
     \<and> req_Deadline (req0\<lparr>req_Deadline := 1700000301\<rparr>) = Unix 1700000000000000000 + 301
     \<and> map_of store1 (req_QueueId (req0\<lparr>req_Deadline := 1700000301\<rparr>)) = Some dir1"
    by code_simp
  have fields: "req_QueueId (req0\<lparr>req_Deadline := 1700000301\<rparr>) = ''q-1''
     \<and> req_Deadline (req0\<lparr>req_Deadline := 1700000301\<rparr>) = 1700000301"
    by code_simp
  from CreateMsg_cases [of "req0\<lparr>req_Deadline := 1700000299\<rparr>" 1700000000000000000 store1 "''m-0''"
      1700000000000000001 dir1] early
  have c1: "CreateMsg store1 (req0\<lparr>req_Deadline := 1700000299\<rparr>) ''m-0'' 1700000000000000000
        1700000000000000001 = (Error ErrDeadline, store1)"
    by blast
  from CreateMsg_cases [of "req0\<lparr>req_QueueId := ''q-9''\<rparr>" 1700000000000000000 store1 "''m-0''"
      1700000000000000001 dir1] missing
  have c2: "CreateMsg store1 (req0\<lparr>req_QueueId := ''q-9''\<rparr>) ''m-0'' 1700000000000000000
        1700000000000000001 = (Error ErrResourceNotFound, store1)"
    by blast
  from CreateMsg_cases [of "req0\<lparr>req_Deadline := 1700000301\<rparr>" 1700000000000000000 store1 "''m-0''"
      1700000000000000001 dir1] ok
  have c3: "fst (CreateMsg store1 (req0\<lparr>req_Deadline := 1700000301\<rparr>) ''m-0'' 1700000000000000000
        1700000000000000001) = Return ''m-0''
   \<and> (\<exists>msg st'.
         CreateMsg store1 (req0\<lparr>req_Deadline := 1700000301\<rparr>) ''m-0'' 1700000000000000000
           1700000000000000001 = (Return ''m-0'', st')
       \<and> map_of st' (req_QueueId (req0\<lparr>req_Deadline := 1700000301\<rparr>))
           = Some (dir1\<lparr>msgs := AList.update (msg_file ''m-0'') (Parsed msg) (msgs dir1)\<rparr>)
       \<and> ID msg = ''m-0'' \<and> UpdateTime msg = 1700000000000000001 \<and> Retried msg = 0
       \<and> ReenterTime msg = zero_time
       \<and> Deadline msg = req_Deadline (req0\<lparr>req_Deadline := 1700000301\<rparr>))"
    by blast
  from c3 fields have c3': "fst (CreateMsg store1 (req0\<lparr>req_Deadline := 1700000301\<rparr>) ''m-0''
        1700000000000000000 1700000000000000001) = Return ''m-0''
   \<and> (\<exists>msg st'.
         CreateMsg store1 (req0\<lparr>req_Deadline := 1700000301\<rparr>) ''m-0'' 1700000000000000000
           1700000000000000001 = (Return ''m-0'', st')
       \<and> map_of st' ''q-1''
           = Some (dir1\<lparr>msgs := AList.update (msg_file ''m-0'') (Parsed msg) (msgs dir1)\<rparr>)
       \<and> ID msg = ''m-0'' \<and> UpdateTime msg = 1700000000000000001 \<and> Retried msg = 0
       \<and> ReenterTime msg = zero_time \<and> Deadline msg = 1700000301)"
    by simp
  from early missing ok c1 c2 c3' show ?thesis
    by blast
qed

subsection \<open>A message that is gone stays gone\<close>

lemma absentD:
  assumes "absent queueId msgId st" and "map_of st queueId = Some d"
    and "(n, f) \<in> set (msgs d)"
  shows "n \<noteq> msg_file msgId \<and> (\<forall>m. f = Parsed m \<longrightarrow> ID m \<noteq> msgId)"
proof -
  from assms(1,2) have "\<forall>p\<in>set (msgs d). fst p \<noteq> msg_file msgId \<and>
      (case snd p of Parsed msg \<Rightarrow> ID msg \<noteq> msgId | Unparsable \<Rightarrow> True)"
    by (simp add: absent_def list_all_iff)
  then have "fst (n, f) \<noteq> msg_file msgId \<and>
      (case snd (n, f) of Parsed msg \<Rightarrow> ID msg \<noteq> msgId | Unparsable \<Rightarrow> True)"
    using assms(3) by (rule bspec)
  then show ?thesis
    by (auto split: json_file.splits)
qed

lemma absentI:
  assumes "\<And>d n f. map_of st queueId = Some d \<Longrightarrow> (n, f) \<in> set (msgs d) \<Longrightarrow>
     n \<noteq> msg_file msgId \<and> (\<forall>m. f = Parsed m \<longrightarrow> ID m \<noteq> msgId)"
  shows "absent queueId msgId st"
proof (cases "map_of st queueId")
  case None
  then show ?thesis by (simp add: absent_def)
next
  case (Some d)
  have "fst p \<noteq> msg_file msgId \<and>
      (case snd p of Parsed msg \<Rightarrow> ID msg \<noteq> msgId | Unparsable \<Rightarrow> True)"
    if "p \<in> set (msgs d)" for p
    using assms [OF Some, of "fst p" "snd p"] that by (auto split: json_file.splits)
  with Some show ?thesis
    by (simp add: absent_def list_all_iff)
qed

lemma set_update_subset: "set (AList.update k v al) \<subseteq> insert (k, v) (set al)"
  by (induction al) auto

lemma set_delete_subset: "set (AList.delete k al) \<subseteq> set al"
  by (auto simp: delete_filter)

lemma set_kept_files: "set (kept_files now files) \<subseteq> set files"
  by (auto simp: kept_files_def)

lemma set_lease_writes:
  "set (lease_writes now ms files) \<subseteq>
     set files \<union> (\<lambda>m. (msg_file (ID m), Parsed (lease_grant now m))) ` set ms"
proof (induction ms rule: rev_induct)
  case Nil
  then show ?case by (simp add: lease_writes_def)
next
  case (snoc m ms)
  have "set (lease_writes now (ms @ [m]) files)
      \<subseteq> insert (msg_file (ID m), Parsed (lease_grant now m)) (set (lease_writes now ms files))"
    by (simp add: lease_writes_snoc set_update_subset)
  with snoc show ?case by auto
qed

lemma msgs_MkdirAll:
  "map_of (MkdirAll st newId) queueId = Some d' \<Longrightarrow>
     map_of st queueId = Some d' \<or> msgs d' = []"
  by (auto simp: MkdirAll_def split: option.splits if_splits)

lemma MkdirAll_exists: "map_of (MkdirAll st newId) newId \<noteq> None"
  by (auto simp: MkdirAll_def map_add_def split: option.splits)

lemma msgs_updateMetadata:
  "map_of (snd (updateMetadata st queue)) queueId = Some d' \<Longrightarrow>
     \<exists>d. map_of st queueId = Some d \<and> msgs d' = msgs d"
  by (auto simp: updateMetadata_def update_conv' split: option.splits if_splits)

lemma msgs_CreateQueue:
  assumes "map_of (snd (CreateQueue st name description runId actorId newId createdAt)) queueId
     = Some d'"
  shows "(\<exists>d. map_of st queueId = Some d \<and> msgs d' = msgs d) \<or> msgs d' = []"
proof (cases "isNameExists st name")
  case True
  with assms show ?thesis by (simp add: CreateQueue_def)
next
  case False
  let ?q = "\<lparr>Id_q = newId, Description = description, Name = name, RunId = runId,
             ActorId = actorId, CreatedAt = createdAt\<rparr>"
  from False assms have "map_of (snd (updateMetadata (MkdirAll st newId) ?q)) queueId = Some d'"
    by (simp add: CreateQueue_def Let_def split: prod.splits outcome.splits)
  from msgs_updateMetadata [OF this] obtain d where
    "map_of (MkdirAll st newId) queueId = Some d" and "msgs d' = msgs d"
    by blast
  with msgs_MkdirAll [of st newId queueId d] show ?thesis
    by auto
qed

lemma msgs_UpdateQueue:
  "map_of (snd (UpdateQueue st q name description)) queueId = Some d' \<Longrightarrow>
     \<exists>d. map_of st queueId = Some d \<and> msgs d' = msgs d"
  by (auto simp: UpdateQueue_def dest: msgs_updateMetadata split: option.splits json_file.splits if_splits)

lemma absent_step:
  assumes inv: "absent queueId msgId st" and fresh: "\<not> generates msgId b"
  shows "absent queueId msgId (step st b)"
proof (cases b)
  case (OpCreateQueue name description runId actorId newId createdAt)
  show ?thesis
  proof (rule absentI)
    fix d' n f
    assume "map_of (step st b) queueId = Some d'" and nf: "(n, f) \<in> set (msgs d')"
    with OpCreateQueue msgs_CreateQueue [of st name description runId actorId newId createdAt queueId d']
    have "(\<exists>d. map_of st queueId = Some d \<and> msgs d' = msgs d) \<or> msgs d' = []"
      by simp
    then show "n \<noteq> msg_file msgId \<and> (\<forall>m. f = Parsed m \<longrightarrow> ID m \<noteq> msgId)"
    proof
      assume "\<exists>d. map_of st queueId = Some d \<and> msgs d' = msgs d"
      then obtain d where "map_of st queueId = Some d" and "msgs d' = msgs d"
        by blast
      with nf show ?thesis
        using absentD [OF inv] by metis
    next
      assume "msgs d' = []"
      with nf show ?thesis
        by simp
    qed
  qed
next
  case (OpGetQueue q)
  with inv show ?thesis
    by (simp add: GetQueue_def split: option.splits json_file.splits)
next
  case (OpGetQueues page pageSize desc)
  with inv show ?thesis
    by (simp add: GetQueues_def Let_def)
next
  case (OpUpdateQueue q name description)
  show ?thesis
  proof (rule absentI)
    fix d' n f
    assume "map_of (step st b) queueId = Some d'" and nf: "(n, f) \<in> set (msgs d')"
    with OpUpdateQueue msgs_UpdateQueue [of st q name description queueId d']
    have "\<exists>d. map_of st queueId = Some d \<and> msgs d' = msgs d"
      by simp
    with inv nf show "n \<noteq> msg_file msgId \<and> (\<forall>m. f = Parsed m \<longrightarrow> ID m \<noteq> msgId)"
      using absentD [OF inv] by metis
  qed
next
  case (OpDelQueue q)
  show ?thesis
  proof (rule absentI)
    fix d' n f
    assume "map_of (step st b) queueId = Some d'" and nf: "(n, f) \<in> set (msgs d')"
    with OpDelQueue have "map_of st queueId = Some d'"
      by (auto simp: DelQueue_def delete_conv' split: if_splits)
    with nf show "n \<noteq> msg_file msgId \<and> (\<forall>m. f = Parsed m \<longrightarrow> ID m \<noteq> msgId)"
      using absentD [OF inv] by metis
  qed
next
  case (OpCreateMsg req newId now1 now2)
  with fresh have new: "newId \<noteq> msgId"
    by simp
  show ?thesis
  proof (rule absentI)
    fix d' n f
    assume d': "map_of (step st b) queueId = Some d'" and nf: "(n, f) \<in> set (msgs d')"
    let ?m = "\<lparr>ID = newId, QueueID = req_QueueId req, Name_m = req_Name req,
             Payload = req_PayLoad req, Timeout = req_Timeout req,
             Deadline = req_Deadline req, Retry = req_Retry req, Retried = 0,
             SuccessAt = 0, FailedAt = 0, Desc = [],
             ReenterTime = zero_time, UpdateTime = now2\<rparr>"
    from d' OpCreateMsg
    consider (same) "map_of st queueId = Some d'"
      | (written) d where "map_of st queueId = Some d"
          and "msgs d' = AList.update (msg_file newId) (Parsed ?m) (msgs d)"
      by (auto simp: CreateMsg_def isDirExists_def update_conv' split: if_splits option.splits)
    then show "n \<noteq> msg_file msgId \<and> (\<forall>m. f = Parsed m \<longrightarrow> ID m \<noteq> msgId)"
    proof cases
      case same
      with inv nf show ?thesis
        using absentD [OF inv] by metis
    next
      case written
      with nf set_update_subset [of "msg_file newId" "Parsed ?m" "msgs d"]
      have "(n, f) = (msg_file newId, Parsed ?m) \<or> (n, f) \<in> set (msgs d)"
        by auto
      then show ?thesis
      proof
        assume "(n, f) = (msg_file newId, Parsed ?m)"
        with new show ?thesis
          by (auto simp: msg_file_inj)
      next
        assume "(n, f) \<in> set (msgs d)"
        with written show ?thesis
          using absentD [OF inv] by metis
      qed
    qed
  qed
next
  case (OpGetMsg q limit now)
  show ?thesis
  proof (rule absentI)
    fix d' n f
    assume d': "map_of (step st b) queueId = Some d'" and nf: "(n, f) \<in> set (msgs d')"
    show "n \<noteq> msg_file msgId \<and> (\<forall>m. f = Parsed m \<longrightarrow> ID m \<noteq> msgId)"
    proof (cases "map_of st q")
      case None
      with d' OpGetMsg have "map_of st queueId = Some d'"
        by (simp add: GetMsg_def)
      with inv nf show ?thesis
        using absentD [OF inv] by metis
    next
      case (Some d)
      show ?thesis
      proof (cases "q = queueId")
        case False
        with d' OpGetMsg Some have "map_of st queueId = Some d'"
          by (auto simp: GetMsg_closed [OF Some] update_conv' split: option.splits if_splits)
        with inv nf show ?thesis
          using absentD [OF inv] by metis
      next
        case True
        let ?sel = "selected_msgs now limit (msgs d)"
        let ?kept = "kept_files now (msgs d)"
        from Some True have here: "map_of st queueId = Some d"
          by simp
        from d' OpGetMsg True
        have "msgs d' = ?kept \<or> msgs d' = lease_writes now ?sel ?kept"
          by (auto simp: GetMsg_closed [OF here] update_conv' split: option.splits if_splits)
        with nf set_lease_writes [of now ?sel ?kept] set_kept_files [of now "msgs d"]
        have "(n, f) \<in> set (msgs d)
            \<or> (n, f) \<in> (\<lambda>m. (msg_file (ID m), Parsed (lease_grant now m))) ` set ?sel"
          by (elim disjE) (simp, blast)+
        then consider (old) "(n, f) \<in> set (msgs d)"
          | (leased) m where "m \<in> set ?sel" and "n = msg_file (ID m)"
              and "f = Parsed (lease_grant now m)"
          by blast
        then show ?thesis
        proof cases
          case old
          with inv Some True show ?thesis
            using absentD [OF inv] by metis
        next
          case leased
          from leased(1) set_selected_msgs [of now limit "msgs d"]
          have "m \<in> set (found now (ReadDir (msgs d)))"
            by blast
          from found_entry [OF this] obtain k where "(k, Parsed m) \<in> set (msgs d)"
            by (auto simp: set_ReadDir)
          with Some True have "ID m \<noteq> msgId"
            using absentD [OF inv] by metis
          with leased show ?thesis
            by (simp add: msg_file_inj ID_lease_grant)
        qed
      qed
    qed
  qed
next
  case (OpAckMsg q i now)
  show ?thesis
  proof (rule absentI)
    fix d' n f
    assume d': "map_of (step st b) queueId = Some d'" and nf: "(n, f) \<in> set (msgs d')"
    from d' OpAckMsg
    consider (same) "map_of st queueId = Some d'"
      | (deleted) d where "map_of st queueId = Some d"
          and "msgs d' = AList.delete (msg_file i) (msgs d)"
      by (auto simp: AckMsg_def update_conv' split: if_splits option.splits json_file.splits)
    then show "n \<noteq> msg_file msgId \<and> (\<forall>m. f = Parsed m \<longrightarrow> ID m \<noteq> msgId)"
    proof cases
      case same
      with inv nf show ?thesis
        using absentD [OF inv] by metis
    next
      case deleted
      with nf set_delete_subset [of "msg_file i" "msgs d"] have "(n, f) \<in> set (msgs d)"
        by auto
      with inv deleted show ?thesis
        using absentD [OF inv] by metis
    qed
  qed
qed

lemma absent_run:
  "absent queueId msgId st \<Longrightarrow> \<forall>b\<in>set bs. \<not> generates msgId b \<Longrightarrow>
     absent queueId msgId (run st bs)"
  unfolding run_def
  by (induction bs arbitrary: st) (simp_all add: absent_step)

subsection \<open>Acknowledging\<close>

lemma absent_no_file:
  assumes "absent queueId msgId st" and "map_of st queueId = Some d"
  shows "map_of (msgs d) (msg_file msgId) = None"
proof -
  have "msg_file msgId \<notin> fst ` set (msgs d)"
    using absentD [OF assms] by force
  then show ?thesis
    by (simp add: map_of_eq_None_iff)
qed

lemma absent_AckMsg:
  assumes "absent queueId msgId st"
  shows "AckMsg st queueId msgId now = (Error ErrResourceNotFound, st)"
proof (cases "map_of st queueId")
  case None
  then show ?thesis
    by (simp add: AckMsg_def isFileExists_def)
next
  case (Some d)
  with absent_no_file [OF assms Some] show ?thesis
    by (simp add: AckMsg_def isFileExists_def)
qed

lemma absent_GetMsg:
  assumes inv: "absent queueId msgId st"
    and get: "GetMsg st queueId limit now = (Return resp, st')"
  shows "msgId \<notin> ID ` set resp"
proof (cases "map_of st queueId")
  case None
  with get show ?thesis
    by (simp add: GetMsg_def)
next
  case (Some d)
  show ?thesis
  proof
    assume "msgId \<in> ID ` set resp"
    with GetMsg_Return [OF Some get] obtain m where
      m: "m \<in> set (selected_msgs now limit (msgs d))" and id: "ID m = msgId"
      by (auto simp: ID_response_Msg ID_lease_grant)
    from m set_selected_msgs [of now limit "msgs d"]
    have "m \<in> set (found now (ReadDir (msgs d)))"
      by blast
    from found_entry [OF this] obtain k where "(k, Parsed m) \<in> set (msgs d)"
      by (auto simp: set_ReadDir)
    with absentD [OF inv Some] id show False
      by blast
  qed
qed

lemma absent_after_delete:
  assumes dir: "map_of st queueId = Some d" and wf: "wf_files (msgs d)"
  shows "absent queueId msgId
           (AList.update queueId (d\<lparr>msgs := AList.delete (msg_file msgId) (msgs d)\<rparr>) st)"
proof (rule absentI)
  fix d' n f
  assume "map_of (AList.update queueId (d\<lparr>msgs := AList.delete (msg_file msgId) (msgs d)\<rparr>) st)
      queueId = Some d'"
    and nf: "(n, f) \<in> set (msgs d')"
  then have "(n, f) \<in> set (AList.delete (msg_file msgId) (msgs d))"
    by (auto simp: map_of_update_same)
  then have n: "n \<noteq> msg_file msgId" and old: "(n, f) \<in> set (msgs d)"
    by (auto simp: delete_filter)
  have "ID m \<noteq> msgId" if "f = Parsed m" for m
  proof
    assume "ID m = msgId"
    moreover from wf old that have "n = msg_file (ID m)"
      by (auto simp: wf_files_def dest: named_by_id_entry)
    ultimately show False
      using n by simp
  qed
  with n show "n \<noteq> msg_file msgId \<and> (\<forall>m. f = Parsed m \<longrightarrow> ID m \<noteq> msgId)"
    by blast
qed

text \<open>
  C3. \<open>AckMsg\<close> fails with \<open>ErrResourceNotFound\<close> when the queue directory or the
  message file does not exist and when the record was never leased (its
  \<open>ReenterTime\<close> is the zero instant); it fails with the lease-expired error when
  \<open>ReenterTime\<close> is before \<open>now\<close>; for a record that parses it succeeds otherwise
  and deletes the message file, leaving everything else as it is. Every failure
  leaves the store unchanged. After a successful acknowledgment, whatever
  operations follow (the id generator not yielding the same id again), a further
  \<open>AckMsg\<close> of the message fails with \<open>ErrResourceNotFound\<close> and no poll returns
  the message.
\<close>

theorem AckMsg_cases:
  "(map_of st queueId = None \<longrightarrow>
      AckMsg st queueId msgId now = (Error ErrResourceNotFound, st))
   \<and> (map_of st queueId = Some d \<and> map_of (msgs d) (msg_file msgId) = None \<longrightarrow>
      AckMsg st queueId msgId now = (Error ErrResourceNotFound, st))
   \<and> (map_of st queueId = Some d \<and> map_of (msgs d) (msg_file msgId) = Some (Parsed m)
        \<and> ReenterTime m = zero_time \<longrightarrow>
      AckMsg st queueId msgId now = (Error ErrResourceNotFound, st))
   \<and> (map_of st queueId = Some d \<and> map_of (msgs d) (msg_file msgId) = Some (Parsed m)
        \<and> ReenterTime m \<noteq> zero_time \<and> ReenterTime m < now \<longrightarrow>
      AckMsg st queueId msgId now = (Error ErrMsgTimeout, st))
   \<and> (map_of st queueId = Some d \<and> map_of (msgs d) (msg_file msgId) = Some (Parsed m)
        \<and> ReenterTime m \<noteq> zero_time \<and> now \<le> ReenterTime m \<longrightarrow>
      (\<exists>st'. AckMsg st queueId msgId now = (Return (), st')
         \<and> map_of st' queueId = Some (d\<lparr>msgs := AList.delete (msg_file msgId) (msgs d)\<rparr>)
         \<and> map_of (AList.delete (msg_file msgId) (msgs d)) (msg_file msgId) = None
         \<and> (\<forall>other. other \<noteq> queueId \<longrightarrow> map_of st' other = map_of st other)
         \<and> (wf_files (msgs d) \<and> (\<forall>b\<in>set bs. \<not> generates msgId b) \<longrightarrow>
              AckMsg (run st' bs) queueId msgId now2 = (Error ErrResourceNotFound, run st' bs)
              \<and> (GetMsg (run st' bs) queueId limit now3 = (Return resp, st3) \<longrightarrow>
                   msgId \<notin> ID ` set resp))))"
proof (intro conjI impI)
  assume "map_of st queueId = None"
  then show "AckMsg st queueId msgId now = (Error ErrResourceNotFound, st)"
    by (simp add: AckMsg_def isFileExists_def)
next
  assume "map_of st queueId = Some d \<and> map_of (msgs d) (msg_file msgId) = None"
  then show "AckMsg st queueId msgId now = (Error ErrResourceNotFound, st)"
    by (simp add: AckMsg_def isFileExists_def)
next
  assume "map_of st queueId = Some d \<and> map_of (msgs d) (msg_file msgId) = Some (Parsed m)
        \<and> ReenterTime m = zero_time"
  then show "AckMsg st queueId msgId now = (Error ErrResourceNotFound, st)"
    by (simp add: AckMsg_def isFileExists_def Equal_def)
next
  assume "map_of st queueId = Some d \<and> map_of (msgs d) (msg_file msgId) = Some (Parsed m)
        \<and> ReenterTime m \<noteq> zero_time \<and> ReenterTime m < now"
  then show "AckMsg st queueId msgId now = (Error ErrMsgTimeout, st)"
    by (simp add: AckMsg_def isFileExists_def Equal_def Before_def)
next
  assume a: "map_of st queueId = Some d \<and> map_of (msgs d) (msg_file msgId) = Some (Parsed m)
        \<and> ReenterTime m \<noteq> zero_time \<and> now \<le> ReenterTime m"
  let ?d = "d\<lparr>msgs := AList.delete (msg_file msgId) (msgs d)\<rparr>"
  let ?st = "AList.update queueId ?d st"
  from a have ack: "AckMsg st queueId msgId now = (Return (), ?st)"
    by (simp add: AckMsg_def isFileExists_def Equal_def Before_def)
  have here: "map_of ?st queueId = Some ?d"
    by (rule map_of_update_same)
  have gone: "map_of (AList.delete (msg_file msgId) (msgs d)) (msg_file msgId) = None"
    by (simp add: delete_conv')
  have others: "\<forall>other. other \<noteq> queueId \<longrightarrow> map_of ?st other = map_of st other"
    by (simp add: map_of_update_other)
  have later: "AckMsg (run ?st bs) queueId msgId now2 = (Error ErrResourceNotFound, run ?st bs)
              \<and> (GetMsg (run ?st bs) queueId limit now3 = (Return resp, st3) \<longrightarrow>
                   msgId \<notin> ID ` set resp)"
    if "wf_files (msgs d) \<and> (\<forall>b\<in>set bs. \<not> generates msgId b)"
  proof -
    from a that have "absent queueId msgId ?st"
      by (intro absent_after_delete) simp_all
    with that have "absent queueId msgId (run ?st bs)"
      by (intro absent_run) simp_all
    then show ?thesis
      using absent_AckMsg absent_GetMsg by blast
  qed
  from ack here gone others later
  show "\<exists>st'. AckMsg st queueId msgId now = (Return (), st')
         \<and> map_of st' queueId = Some (d\<lparr>msgs := AList.delete (msg_file msgId) (msgs d)\<rparr>)
         \<and> map_of (AList.delete (msg_file msgId) (msgs d)) (msg_file msgId) = None
         \<and> (\<forall>other. other \<noteq> queueId \<longrightarrow> map_of st' other = map_of st other)
         \<and> (wf_files (msgs d) \<and> (\<forall>b\<in>set bs. \<not> generates msgId b) \<longrightarrow>
              AckMsg (run st' bs) queueId msgId now2 = (Error ErrResourceNotFound, run st' bs)
              \<and> (GetMsg (run st' bs) queueId limit now3 = (Return resp, st3) \<longrightarrow>
                   msgId \<notin> ID ` set resp))"
    by (intro exI [of _ ?st]) (simp only: simp_thms, blast)
qed

theorem AckMsg_cases_witness:
  "AckMsg store1_leased ''q-9'' ''m-1'' 1700000130000000000
     = (Error ErrResourceNotFound, store1_leased)
   \<and> AckMsg store1_leased ''q-1'' ''m-9'' 1700000130000000000
     = (Error ErrResourceNotFound, store1_leased)
   \<and> AckMsg store1 ''q-1'' ''m-1'' 1700000130000000000 = (Error ErrResourceNotFound, store1)
   \<and> AckMsg store1_leased ''q-1'' ''m-1'' 1700000200000000000
     = (Error ErrMsgTimeout, store1_leased)
   \<and> AckMsg store1_leased ''q-1'' ''m-1'' 1700000130000000000 = (Return (), store_of [])
   \<and> AckMsg
        (run (store_of [])
           [OpCreateMsg (req0\<lparr>req_Retry := 2\<rparr>) ''m-0'' 1700000140000000000 1700000140000000000,
            OpAckMsg ''q-1'' ''m-1'' 1700000150000000000, OpGetQueue ''q-1''])
        ''q-1'' ''m-1'' 1700000155000000000
     = (Error ErrResourceNotFound,
        run (store_of [])
           [OpCreateMsg (req0\<lparr>req_Retry := 2\<rparr>) ''m-0'' 1700000140000000000 1700000140000000000,
            OpAckMsg ''q-1'' ''m-1'' 1700000150000000000, OpGetQueue ''q-1''])
   \<and> GetMsg
        (run (store_of [])
           [OpCreateMsg (req0\<lparr>req_Retry := 2\<rparr>) ''m-0'' 1700000140000000000 1700000140000000000,
            OpAckMsg ''q-1'' ''m-1'' 1700000150000000000, OpGetQueue ''q-1''])
        ''q-1'' 10 1700000160000000000
     = (Return [response_Msg (msg0\<lparr>Retry := 2, Retried := 1\<rparr>)],
        store_of [(''m-0.json'',
          Parsed (msg0\<lparr>Retry := 2, Retried := 1, ReenterTime := 1700000190000000000,
                        UpdateTime := 1700000140000000000\<rparr>))])
   \<and> ''m-1'' \<notin> ID ` set [response_Msg (msg0\<lparr>Retry := 2, Retried := 1\<rparr>)]"
proof -
  let ?bs = "[OpCreateMsg (req0\<lparr>req_Retry := 2\<rparr>) ''m-0'' 1700000140000000000 1700000140000000000,
            OpAckMsg ''q-1'' ''m-1'' 1700000150000000000, OpGetQueue ''q-1'']"
  let ?d = "dir1\<lparr>msgs := [(''m-1.json'', Parsed leased1)]\<rparr>"
  have no_queue: "map_of store1_leased ''q-9'' = None"
    by code_simp
  have no_file: "map_of store1_leased ''q-1'' = Some ?d \<and> map_of (msgs ?d) (msg_file ''m-9'') = None"
    by code_simp
  have unleased: "map_of store1 ''q-1'' = Some dir1
     \<and> map_of (msgs dir1) (msg_file ''m-1'') = Some (Parsed msg1) \<and> ReenterTime msg1 = zero_time"
    by code_simp
  have expired: "map_of store1_leased ''q-1'' = Some ?d
     \<and> map_of (msgs ?d) (msg_file ''m-1'') = Some (Parsed leased1)
     \<and> ReenterTime leased1 \<noteq> zero_time \<and> ReenterTime leased1 < 1700000200000000000"
    by code_simp
  have in_time: "map_of store1_leased ''q-1'' = Some ?d
     \<and> map_of (msgs ?d) (msg_file ''m-1'') = Some (Parsed leased1)
     \<and> ReenterTime leased1 \<noteq> zero_time \<and> 1700000130000000000 \<le> ReenterTime leased1"
    by code_simp
  have later: "wf_files (msgs ?d) \<and> (\<forall>b\<in>set ?bs. \<not> generates ''m-1'' b)"
    by code_simp
  have ack: "AckMsg store1_leased ''q-1'' ''m-1'' 1700000130000000000 = (Return (), store_of [])"
    by code_simp
  have poll: "GetMsg (run (store_of []) ?bs) ''q-1'' 10 1700000160000000000
     = (Return [response_Msg (msg0\<lparr>Retry := 2, Retried := 1\<rparr>)],
        store_of [(''m-0.json'',
          Parsed (msg0\<lparr>Retry := 2, Retried := 1, ReenterTime := 1700000190000000000,
                        UpdateTime := 1700000140000000000\<rparr>))])"
    by code_simp
  from AckMsg_cases [of store1_leased "''q-9''" "''m-1''" 1700000130000000000] no_queue
  have c1: "AckMsg store1_leased ''q-9'' ''m-1'' 1700000130000000000
     = (Error ErrResourceNotFound, store1_leased)"
    by blast
  from AckMsg_cases [of store1_leased "''q-1''" "''m-9''" 1700000130000000000 ?d] no_file
  have c2: "AckMsg store1_leased ''q-1'' ''m-9'' 1700000130000000000
     = (Error ErrResourceNotFound, store1_leased)"
    by blast
  from AckMsg_cases [of store1 "''q-1''" "''m-1''" 1700000130000000000 dir1 msg1] unleased
  have c3: "AckMsg store1 ''q-1'' ''m-1'' 1700000130000000000 = (Error ErrResourceNotFound, store1)"
    by blast
  from AckMsg_cases [of store1_leased "''q-1''" "''m-1''" 1700000200000000000 ?d leased1] expired
  have c4: "AckMsg store1_leased ''q-1'' ''m-1'' 1700000200000000000
     = (Error ErrMsgTimeout, store1_leased)"
    by blast
  from AckMsg_cases [of store1_leased "''q-1''" "''m-1''" 1700000130000000000 ?d leased1 ?bs
      1700000155000000000 10 1700000160000000000
      "[response_Msg (msg0\<lparr>Retry := 2, Retried := 1\<rparr>)]"
      "store_of [(''m-0.json'',
          Parsed (msg0\<lparr>Retry := 2, Retried := 1, ReenterTime := 1700000190000000000,
                        UpdateTime := 1700000140000000000\<rparr>))]"]
    in_time later
  obtain st' where st': "AckMsg store1_leased ''q-1'' ''m-1'' 1700000130000000000 = (Return (), st')"
    and again: "AckMsg (run st' ?bs) ''q-1'' ''m-1'' 1700000155000000000
       = (Error ErrResourceNotFound, run st' ?bs)"
    and never: "GetMsg (run st' ?bs) ''q-1'' 10 1700000160000000000
     = (Return [response_Msg (msg0\<lparr>Retry := 2, Retried := 1\<rparr>)],
        store_of [(''m-0.json'',
          Parsed (msg0\<lparr>Retry := 2, Retried := 1, ReenterTime := 1700000190000000000,
                        UpdateTime := 1700000140000000000\<rparr>))])
       \<longrightarrow> ''m-1'' \<notin> ID ` set [response_Msg (msg0\<lparr>Retry := 2, Retried := 1\<rparr>)]"
    by blast
  from st' ack have eq: "st' = store_of []"
    by simp
  from c1 c2 c3 c4 ack again never poll show ?thesis
    unfolding eq by blast
qed

subsection \<open>What an error leaves behind\<close>

lemma updateMetadata_MkdirAll:
  "\<exists>st2. updateMetadata (MkdirAll st (Id_q queue)) queue = (Return (), st2)"
  using MkdirAll_exists [of st "Id_q queue"]
  by (auto simp: updateMetadata_def split: option.splits)

lemma CreateQueue_Error:
  assumes "CreateQueue st name description runId actorId newId createdAt = (Error e, st')"
  shows "st' = st"
proof (cases "isNameExists st name")
  case True
  with assms show ?thesis by (simp add: CreateQueue_def)
next
  case False
  let ?q = "\<lparr>Id_q = newId, Description = description, Name = name, RunId = runId,
             ActorId = actorId, CreatedAt = createdAt\<rparr>"
  from updateMetadata_MkdirAll [of st ?q] obtain st2 where
    "updateMetadata (MkdirAll st newId) ?q = (Return (), st2)"
    by auto
  with False assms show ?thesis
    by (simp add: CreateQueue_def Let_def)
qed

lemma UpdateQueue_Error:
  "UpdateQueue st queueId name description = (Error e, st') \<Longrightarrow> st' = st"
  by (auto simp: UpdateQueue_def updateMetadata_def
      split: if_splits option.splits json_file.splits)

lemma CreateMsg_Error:
  "CreateMsg st req newId now1 now2 = (Error e, st') \<Longrightarrow> st' = st"
  by (auto simp: CreateMsg_def Let_def split: if_splits option.splits)

lemma AckMsg_Error:
  "AckMsg st queueId msgId now = (Error e, st') \<Longrightarrow> st' = st"
  by (auto simp: AckMsg_def split: if_splits option.splits json_file.splits)

lemma GetMsg_Error:
  assumes get: "GetMsg st queueId limit now = (Error e, st')"
  shows "(map_of st queueId = None \<longrightarrow> st' = st)
     \<and> (\<forall>d. map_of st queueId = Some d \<longrightarrow>
          (\<exists>d'. map_of st' queueId = Some d' \<and> metadata d' = metadata d
             \<and> (\<forall>n. map_of (msgs d') n = map_of (msgs d) n
                  \<or> (map_of (msgs d') n = None
                      \<and> (\<exists>m. (n, Parsed m) \<in> set (msgs d) \<and> finished now m)))))
     \<and> (\<forall>other. other \<noteq> queueId \<longrightarrow> map_of st' other = map_of st other)"
proof (cases "map_of st queueId")
  case None
  with get show ?thesis
    by (simp add: GetMsg_def)
next
  case (Some d)
  let ?d = "d\<lparr>msgs := kept_files now (msgs d)\<rparr>"
  from get have st': "st' = AList.update queueId ?d st"
    unfolding GetMsg_closed [OF Some] by (auto split: option.splits if_splits)
  have files: "map_of (msgs ?d) n = map_of (msgs d) n
       \<or> (map_of (msgs ?d) n = None \<and> (\<exists>m. (n, Parsed m) \<in> set (msgs d) \<and> finished now m))"
    for n
    using purged_entry [of n now "ReadDir (msgs d)"]
    by (auto simp: map_of_kept_files set_ReadDir)
  have here: "map_of st' queueId = Some ?d"
    by (simp add: st' map_of_update_same)
  have meta: "metadata ?d = metadata d"
    by simp
  have others: "\<forall>other. other \<noteq> queueId \<longrightarrow> map_of st' other = map_of st other"
    by (simp add: st' map_of_update_other)
  from here meta files
  have "\<exists>d'. map_of st' queueId = Some d' \<and> metadata d' = metadata d
             \<and> (\<forall>n. map_of (msgs d') n = map_of (msgs d) n
                  \<or> (map_of (msgs d') n = None
                      \<and> (\<exists>m. (n, Parsed m) \<in> set (msgs d) \<and> finished now m)))"
    by (intro exI [of _ ?d] conjI allI)
  with Some others show ?thesis
    by simp
qed

text \<open>
  C8 (as amended). When \<open>CreateQueue\<close>, \<open>UpdateQueue\<close>, \<open>CreateMsg\<close> or \<open>AckMsg\<close>
  returns an error, the store is the one before the call; \<open>GetQueue\<close> and
  \<open>GetQueues\<close> never change the store, and \<open>DelQueue\<close> returns no error. A poll
  that returns an error leaves every other directory and the descriptor as they
  were; of the message files of its directory, each one is as before or it is
  gone and held a record for which the terminal test of the walk holds. (The
  errors are those that the store or the request give rise to; failures of the
  operating system are not modelled.)
\<close>

theorem errors_leave_store:
  "(CreateQueue st name description runId actorId newId createdAt = (Error e, st') \<longrightarrow> st' = st)
   \<and> snd (GetQueue st queueId) = st
   \<and> snd (GetQueues st page pageSize desc) = st
   \<and> (UpdateQueue st queueId name description = (Error e, st') \<longrightarrow> st' = st)
   \<and> fst (DelQueue st queueId) = Return ()
   \<and> (CreateMsg st req newId now1 now2 = (Error e, st') \<longrightarrow> st' = st)
   \<and> (AckMsg st queueId msgId now = (Error e, st') \<longrightarrow> st' = st)
   \<and> (GetMsg st queueId limit now = (Error e, st') \<longrightarrow>
        (map_of st queueId = None \<longrightarrow> st' = st)
        \<and> (\<forall>d. map_of st queueId = Some d \<longrightarrow>
             (\<exists>d'. map_of st' queueId = Some d' \<and> metadata d' = metadata d
                \<and> (\<forall>n. map_of (msgs d') n = map_of (msgs d) n
                     \<or> (map_of (msgs d') n = None
                         \<and> (\<exists>m. (n, Parsed m) \<in> set (msgs d) \<and> finished now m)))))
        \<and> (\<forall>other. other \<noteq> queueId \<longrightarrow> map_of st' other = map_of st other))"
proof -
  have create: "CreateQueue st name description runId actorId newId createdAt = (Error e, st')
      \<longrightarrow> st' = st"
    using CreateQueue_Error by blast
  have get: "snd (GetQueue st queueId) = st"
    by (simp add: GetQueue_def split: option.splits json_file.splits)
  have list: "snd (GetQueues st page pageSize desc) = st"
    by (simp add: GetQueues_def Let_def)
  have update: "UpdateQueue st queueId name description = (Error e, st') \<longrightarrow> st' = st"
    using UpdateQueue_Error by blast
  have del: "fst (DelQueue st queueId) = Return ()"
    by (simp add: DelQueue_def)
  have enqueue: "CreateMsg st req newId now1 now2 = (Error e, st') \<longrightarrow> st' = st"
    using CreateMsg_Error by blast
  have ack: "AckMsg st queueId msgId now = (Error e, st') \<longrightarrow> st' = st"
    using AckMsg_Error by blast
  have poll: "GetMsg st queueId limit now = (Error e, st') \<longrightarrow>
        (map_of st queueId = None \<longrightarrow> st' = st)
        \<and> (\<forall>d. map_of st queueId = Some d \<longrightarrow>
             (\<exists>d'. map_of st' queueId = Some d' \<and> metadata d' = metadata d
                \<and> (\<forall>n. map_of (msgs d') n = map_of (msgs d) n
                     \<or> (map_of (msgs d') n = None
                         \<and> (\<exists>m. (n, Parsed m) \<in> set (msgs d) \<and> finished now m)))))
        \<and> (\<forall>other. other \<noteq> queueId \<longrightarrow> map_of st' other = map_of st other)"
    by (rule impI) (rule GetMsg_Error)
  from create get list update del enqueue ack poll show ?thesis
    by (intro conjI) assumption+
qed

theorem errors_leave_store_witness:
  "CreateQueue store1 ''orders'' ''again'' ''run-2'' ''actor-2'' ''q-2'' ''2023-11-14T22:15:00Z''
     = (Error (ErrQueueExists ''orders''), store1)
   \<and> UpdateQueue [(''q-3'', \<lparr>metadata = Some Unparsable, msgs = []\<rparr>)] ''q-3'' ''n'' ''d''
     = (Error ErrUnmarshal, [(''q-3'', \<lparr>metadata = Some Unparsable, msgs = []\<rparr>)])
   \<and> CreateMsg store1 (req0\<lparr>req_Deadline := 1700000299\<rparr>) ''m-0'' 1700000000000000000
        1700000000000000001 = (Error ErrDeadline, store1)
   \<and> AckMsg store1 ''q-1'' ''m-1'' 1700000130000000000 = (Error ErrResourceNotFound, store1)
   \<and> GetMsg (store_of [(''m-1.json'', Parsed msg1), (''m-2.json'', Unparsable)]) ''q-1'' 10
        1700000500000000000
     = (Error ErrUnmarshal, store_of [(''m-2.json'', Unparsable)])
   \<and> (\<exists>d d'.
         map_of (store_of [(''m-1.json'', Parsed msg1), (''m-2.json'', Unparsable)]) ''q-1'' = Some d
       \<and> map_of (store_of [(''m-2.json'', Unparsable)]) ''q-1'' = Some d'
       \<and> metadata d' = metadata d
       \<and> (\<forall>n. map_of (msgs d') n = map_of (msgs d) n
            \<or> (map_of (msgs d') n = None
                \<and> (\<exists>m. (n, Parsed m) \<in> set (msgs d) \<and> finished 1700000500000000000 m))))"
proof -
  let ?bad = "store_of [(''m-1.json'', Parsed msg1), (''m-2.json'', Unparsable)]"
  let ?left = "store_of [(''m-2.json'', Unparsable)]"
  let ?q3 = "[(''q-3'', \<lparr>metadata = Some Unparsable, msgs = []\<rparr>)]"
  have create: "CreateQueue store1 ''orders'' ''again'' ''run-2'' ''actor-2'' ''q-2''
      ''2023-11-14T22:15:00Z'' = (Error (ErrQueueExists ''orders''), store1)"
    by code_simp
  have update: "UpdateQueue ?q3 ''q-3'' ''n'' ''d'' = (Error ErrUnmarshal, ?q3)"
    by code_simp
  have enqueue: "CreateMsg store1 (req0\<lparr>req_Deadline := 1700000299\<rparr>) ''m-0'' 1700000000000000000
        1700000000000000001 = (Error ErrDeadline, store1)"
    by code_simp
  have ack: "AckMsg store1 ''q-1'' ''m-1'' 1700000130000000000 = (Error ErrResourceNotFound, store1)"
    by code_simp
  have poll: "GetMsg ?bad ''q-1'' 10 1700000500000000000 = (Error ErrUnmarshal, ?left)"
    by code_simp
  note all = errors_leave_store [where st = ?bad and queueId = "''q-1''" and limit = 10
      and now = 1700000500000000000 and e = ErrUnmarshal and st' = ?left]
  note failed = all [THEN conjunct2, THEN conjunct2, THEN conjunct2, THEN conjunct2,
      THEN conjunct2, THEN conjunct2, THEN conjunct2, THEN mp, OF poll]
  have dir: "map_of ?bad ''q-1''
      = Some \<lparr>metadata = Some (Parsed orders),
               msgs = [(''m-1.json'', Parsed msg1), (''m-2.json'', Unparsable)]\<rparr>"
    by (simp add: store_of_def)
  from failed [THEN conjunct2, THEN conjunct1, THEN spec, THEN mp, OF dir] dir
  have "\<exists>d d'. map_of ?bad ''q-1'' = Some d \<and> map_of ?left ''q-1'' = Some d'
       \<and> metadata d' = metadata d
       \<and> (\<forall>n. map_of (msgs d') n = map_of (msgs d) n
            \<or> (map_of (msgs d') n = None
                \<and> (\<exists>m. (n, Parsed m) \<in> set (msgs d) \<and> finished 1700000500000000000 m)))"
    by blast
  with create update enqueue ack poll show ?thesis
    by (intro conjI) assumption+
qed

text \<open>
  The claim as stated fails for the poll: the file \<open>m-1.json\<close> holds a message
  whose deadline has passed, the file \<open>m-2.json\<close> does not parse. The walk visits
  them in this order, removes the first and stops with the error of the second.
\<close>

theorem errors_leave_store_counterexample:
  "GetMsg (store_of [(''m-1.json'', Parsed msg1), (''m-2.json'', Unparsable)]) ''q-1'' 10
     1700000500000000000
     = (Error ErrUnmarshal, store_of [(''m-2.json'', Unparsable)])
   \<and> store_of [(''m-2.json'', Unparsable)]
       \<noteq> store_of [(''m-1.json'', Parsed msg1), (''m-2.json'', Unparsable)]"
  by code_simp

subsection \<open>Every store that the operations reach is well formed\<close>

lemma wf_store_dir:
  assumes "wf_store st" and "map_of st queueId = Some d"
  shows "wf_files (msgs d)"
proof -
  from assms(2) have "(queueId, d) \<in> set st"
    by (rule map_of_SomeD)
  with assms(1) have "wf_files (msgs (snd (queueId, d)))"
    unfolding wf_store_def list_all_iff by (rule bspec)
  then show ?thesis by simp
qed

lemma wf_store_update:
  "wf_store st \<Longrightarrow> wf_files (msgs d) \<Longrightarrow> wf_store (AList.update queueId d st)"
  using set_update_subset [of queueId d st]
  by (auto simp: wf_store_def list_all_iff)

lemma wf_store_delete: "wf_store st \<Longrightarrow> wf_store (AList.delete queueId st)"
  using set_delete_subset [of queueId st]
  by (auto simp: wf_store_def list_all_iff)

lemma wf_store_MkdirAll: "wf_store st \<Longrightarrow> wf_store (MkdirAll st newId)"
  by (auto simp: wf_store_def MkdirAll_def wf_files_def named_by_id_def split: option.splits)

lemma wf_store_updateMetadata:
  assumes "wf_store st"
  shows "wf_store (snd (updateMetadata st queue))"
proof (cases "map_of st (Id_q queue)")
  case None
  with assms show ?thesis
    by (simp add: updateMetadata_def)
next
  case (Some d)
  from assms Some have "wf_files (msgs d)"
    by (rule wf_store_dir)
  with assms have "wf_store (AList.update (Id_q queue) (d\<lparr>metadata := Some (Parsed queue)\<rparr>) st)"
    by (intro wf_store_update) simp_all
  with Some show ?thesis
    by (simp add: updateMetadata_def)
qed

lemma wf_store_step:
  assumes wf: "wf_store st"
  shows "wf_store (step st b)"
proof (cases b)
  case (OpCreateQueue name description runId actorId newId createdAt)
  let ?q = "\<lparr>Id_q = newId, Description = description, Name = name, RunId = runId,
             ActorId = actorId, CreatedAt = createdAt\<rparr>"
  have "wf_store (snd (updateMetadata (MkdirAll st newId) ?q))"
    using wf by (intro wf_store_updateMetadata wf_store_MkdirAll)
  with wf OpCreateQueue show ?thesis
    by (auto simp: CreateQueue_def Let_def split: prod.splits outcome.splits)
next
  case (OpGetQueue q)
  with wf show ?thesis
    by (simp add: GetQueue_def split: option.splits json_file.splits)
next
  case (OpGetQueues page pageSize desc)
  with wf show ?thesis
    by (simp add: GetQueues_def Let_def)
next
  case (OpUpdateQueue q name description)
  with wf wf_store_updateMetadata [OF wf] show ?thesis
    by (simp add: UpdateQueue_def split: option.splits json_file.splits)
next
  case (OpDelQueue q)
  with wf show ?thesis
    by (simp add: DelQueue_def wf_store_delete)
next
  case (OpCreateMsg req newId now1 now2)
  with wf show ?thesis
    by (auto simp: CreateMsg_def Let_def wf_files_update
        intro!: wf_store_update dest: wf_store_dir split: option.splits)
next
  case (OpGetMsg q limit now)
  show ?thesis
  proof (cases "map_of st q")
    case None
    with wf OpGetMsg show ?thesis
      by (simp add: GetMsg_def)
  next
    case (Some d)
    obtain out st' where get: "GetMsg st q limit now = (out, st')"
      by (cases "GetMsg st q limit now")
    from wf Some have wfd: "wf_files (msgs d)"
      by (rule wf_store_dir)
    have kept: "wf_files (kept_files now (msgs d))"
      using wfd by (simp add: kept_files_def wf_files_filter)
    then have "wf_files (lease_writes now (selected_msgs now limit (msgs d)) (kept_files now (msgs d)))"
      by (rule wf_files_lease_writes)
    with kept wf OpGetMsg show ?thesis
      by (auto simp: GetMsg_closed [OF Some] intro!: wf_store_update split: option.splits)
  qed
next
  case (OpAckMsg q i now)
  with wf show ?thesis
    by (auto simp: AckMsg_def wf_files_delete
        intro!: wf_store_update dest: wf_store_dir split: option.splits json_file.splits)
qed

lemma wf_store_run: "wf_store st \<Longrightarrow> wf_store (run st bs)"
  unfolding run_def by (induction bs arbitrary: st) (simp_all add: wf_store_step)

lemma wf_store_reachable: "wf_store (run [] bs)"
  by (rule wf_store_run) (simp add: wf_store_def)

end
